theory Spec2Isabelle
  imports Main "HOL-Library.Multiset"
begin

section \<open>Strings\<close>

text \<open>
  Python strings are modelled as \<^typ>\<open>string\<close>. The helpers below follow
  \<^verbatim>\<open>str.strip\<close>, \<^verbatim>\<open>str.upper\<close>, \<^verbatim>\<open>str.lower\<close> and \<^verbatim>\<open>str.isalpha\<close> on ASCII text:
  the whitespace characters are the ASCII ones Python strips (tab, line feed, vertical
  tab, form feed, carriage return, the four separators 0x1C..0x1F and the blank), the
  letters are \<open>a..z\<close> and \<open>A..Z\<close>; every other character is left alone.
\<close>

definition whitespace :: "char list" where
  "whitespace = [CHR 0x09, CHR 0x0A, CHR 0x0B, CHR 0x0C, CHR 0x0D,
                 CHR 0x1C, CHR 0x1D, CHR 0x1E, CHR 0x1F, CHR 0x20]"

definition lowercase :: "char list" where
  "lowercase = ''abcdefghijklmnopqrstuvwxyz''"

definition uppercase :: "char list" where
  "uppercase = ''ABCDEFGHIJKLMNOPQRSTUVWXYZ''"

definition is_space :: "char \<Rightarrow> bool" where
  "is_space c = (c \<in> set whitespace)"

definition strip :: "string \<Rightarrow> string" where
  "strip s = rev (dropWhile is_space (rev (dropWhile is_space s)))"

definition upper_char :: "char \<Rightarrow> char" where
  "upper_char c = (case map_of (zip lowercase uppercase) c of Some u \<Rightarrow> u | None \<Rightarrow> c)"

definition lower_char :: "char \<Rightarrow> char" where
  "lower_char c = (case map_of (zip uppercase lowercase) c of Some l \<Rightarrow> l | None \<Rightarrow> c)"

definition upper :: "string \<Rightarrow> string" where
  "upper s = map upper_char s"

definition lower :: "string \<Rightarrow> string" where
  "lower s = map lower_char s"

definition isalpha :: "string \<Rightarrow> bool" where
  "isalpha s = (s \<noteq> [] \<and> list_all (\<lambda>c. c \<in> set (lowercase @ uppercase)) s)"

text \<open>
  Truthiness of an optional string: Python's \<^verbatim>\<open>x or y\<close> takes \<open>y\<close> when \<open>x\<close> is
  \<^verbatim>\<open>None\<close> or the empty string.
\<close>

definition truthy :: "string option \<Rightarrow> bool" where
  "truthy v = (case v of None \<Rightarrow> False | Some s \<Rightarrow> s \<noteq> [])"

definition py_or :: "string option \<Rightarrow> string option \<Rightarrow> string option" where
  "py_or a b = (if truthy a then a else b)"

definition py_str :: "string option \<Rightarrow> string" where
  "py_str v = (case v of None \<Rightarrow> ''None'' | Some s \<Rightarrow> s)"

section \<open>Data\<close>

text \<open>
  The normalized charity dictionary built by \<^verbatim>\<open>group_charities_by_decile\<close>:
  seven keys, each holding an optional string.
\<close>

record charity =
  name :: "string option"
  ein :: "string option"
  profileUrl :: "string option"
  websiteUrl :: "string option"
  nteeCode :: "string option"
  location :: "string option"
  description :: "string option"

text \<open>
  \<^verbatim>\<open>charities_by_code\<close> is a Python dict, whose iteration order is its insertion
  order: an association list with distinct keys.
\<close>

type_synonym pools = "(string \<times> charity list) list"

subsection \<open>The world outside the two modules\<close>

datatype error =
  HTTPException int string
  | FileNotFoundError
  | AttributeError

record CharityRow =
  row_ein :: "string option"
  row_name :: "string option"
  row_city :: "string option"
  row_state :: "string option"
  row_ntee_code :: "string option"
  row_ntee_major :: "string option"

record query =
  q_deciles :: "string list"
  q_state :: "string option"
  q_limit :: int

type_synonym detail = "(string \<times> string option) list"

datatype nonprofit_json = NonprofitMissing | NonprofitOther | NonprofitDict detail
datatype data_json = DataMissing | DataOther | DataDict nonprofit_json
datatype payload_json = PayloadOther | PayloadDict data_json
datatype body = BadJson | Json payload_json
datatype http_result = RequestException | Response int body

record env =
  db_exists :: bool
  table :: "CharityRow list"
  db_random :: "nat \<Rightarrow> nat \<Rightarrow> nat \<Rightarrow> nat"
  api_key_env :: "string option"
  every_org :: "nat \<Rightarrow> string \<Rightarrow> http_result"
  randbelow :: "int \<Rightarrow> nat \<Rightarrow> nat \<Rightarrow> nat"

record world =
  connection :: bool
  queries :: "query list"
  every_cache :: "string \<rightharpoonup> detail option"
  requests :: "string list"

section \<open>random.Random(seed).shuffle\<close>

fun shuffle_from :: "(nat \<Rightarrow> nat \<Rightarrow> nat) \<Rightarrow> nat \<Rightarrow> nat \<Rightarrow> 'a list \<Rightarrow> 'a list" where
  "shuffle_from draw k 0 xs = xs"
| "shuffle_from draw k (Suc i) xs =
     (let j = draw k (Suc i + 1) mod (Suc i + 1)
      in shuffle_from draw (k + 1) i (xs[Suc i := xs ! j, j := xs ! Suc i]))"

definition shuffle :: "env \<Rightarrow> int \<Rightarrow> 'a list \<Rightarrow> 'a list" where
  "shuffle e seed xs = shuffle_from (randbelow e seed) 0 (length xs - 1) xs"

section \<open>backend/catalog.py\<close>

definition get_connection :: "env \<Rightarrow> world \<Rightarrow> (error + unit) \<times> world" where
  "get_connection e w =
     (if \<not> connection w then
        (if \<not> db_exists e then (Inl FileNotFoundError, w)
         else (Inr (), w\<lparr>connection := True\<rparr>))
      else (Inr (), w))"

definition rows_to_charities :: "CharityRow list \<Rightarrow> CharityRow list" where
  "rows_to_charities rows =
     map (\<lambda>row. \<lparr>row_ein = row_ein row, row_name = row_name row, row_city = row_city row,
                  row_state = row_state row, row_ntee_code = row_ntee_code row,
                  row_ntee_major = row_ntee_major row\<rparr>) rows"

definition normalize_deciles :: "string list \<Rightarrow> string list" where
  "normalize_deciles deciles = map (\<lambda>d. upper (strip d)) (filter (\<lambda>d. strip d \<noteq> []) deciles)"

definition catalog_normalize_state :: "string option \<Rightarrow> string option" where
  "catalog_normalize_state state =
     (case state of
        None \<Rightarrow> None
      | Some st \<Rightarrow>
          if st = [] then None
          else (let st' = upper (strip st)
                in if st' = [] \<or> st' = ''ANY'' then None else Some st'))"

definition matches :: "query \<Rightarrow> CharityRow \<Rightarrow> bool" where
  "matches q row =
     ((case row_ntee_code row of None \<Rightarrow> False | Some c \<Rightarrow> c \<in> set (q_deciles q)) \<and>
      (case q_state q of None \<Rightarrow> True | Some st \<Rightarrow> row_state row = Some st))"

definition sql_limit :: "int \<Rightarrow> 'a list \<Rightarrow> 'a list" where
  "sql_limit n rows = (if n < 0 then rows else take (nat n) rows)"

definition order_by_random :: "env \<Rightarrow> nat \<Rightarrow> 'a list \<Rightarrow> 'a list" where
  "order_by_random e k rows = shuffle_from (db_random e k) 0 (length rows - 1) rows"

definition select_rows :: "env \<Rightarrow> world \<Rightarrow> query \<Rightarrow> CharityRow list" where
  "select_rows e w q =
     sql_limit (q_limit q)
       (order_by_random e (length (queries w)) (filter (matches q) (table e)))"

definition execute_query :: "env \<Rightarrow> world \<Rightarrow> query \<Rightarrow> (error + CharityRow list) \<times> world" where
  "execute_query e w q =
     (case get_connection e w of
        (Inl err, w') \<Rightarrow> (Inl err, w')
      | (Inr _, w') \<Rightarrow> (Inr (select_rows e w' q), w'\<lparr>queries := queries w' @ [q]\<rparr>))"

definition fetch_by_deciles ::
  "env \<Rightarrow> world \<Rightarrow> string list \<Rightarrow> string option \<Rightarrow> int \<Rightarrow> (error + CharityRow list) \<times> world" where
  "fetch_by_deciles e w deciles state limit =
     (let cleaned_deciles = normalize_deciles deciles in
      if cleaned_deciles = [] then (Inr [], w)
      else
        (let unfiltered = \<lparr>q_deciles = cleaned_deciles, q_state = None, q_limit = limit\<rparr>;
             fallback = (\<lambda>w. case execute_query e w unfiltered of
                            (Inl err, w') \<Rightarrow> (Inl err, w')
                          | (Inr rows, w') \<Rightarrow> (Inr (rows_to_charities rows), w'))
         in case catalog_normalize_state state of
              None \<Rightarrow> fallback w
            | Some normalized_state \<Rightarrow>
                (case execute_query e w (unfiltered\<lparr>q_state := Some normalized_state\<rparr>) of
                   (Inl err, w') \<Rightarrow> (Inl err, w')
                 | (Inr rows, w') \<Rightarrow>
                     if rows \<noteq> [] then (Inr (rows_to_charities rows), w')
                     else fallback w')))"

definition fetch_random_pool_for_deciles ::
  "env \<Rightarrow> world \<Rightarrow> string list \<Rightarrow> string option \<Rightarrow> int \<Rightarrow> int option \<Rightarrow>
     (error + CharityRow list) \<times> world" where
  "fetch_random_pool_for_deciles e w deciles state pool_size seed =
     (if pool_size \<le> 0 then (Inr [], w)
      else
        (let large_limit = max (pool_size * 3) pool_size
         in case fetch_by_deciles e w deciles state large_limit of
              (Inl err, w') \<Rightarrow> (Inl err, w')
            | (Inr results, w') \<Rightarrow>
                (let results' = (case seed of None \<Rightarrow> results | Some sd \<Rightarrow> shuffle e sd results)
                 in (Inr (take (nat pool_size) results'), w'))))"


section \<open>backend/app.py\<close>

definition MAX_CHARITIES :: int where
  "MAX_CHARITIES = 15"

definition GENERIC_TO_NTEE :: "(string \<times> string list) list" where
  "GENERIC_TO_NTEE =
     [(''A0'', [''A50'', ''A51'', ''A52'', ''A54'', ''A56'', ''A57'', ''A80'']),
      (''A1'', [''A60'', ''A61'', ''A62'', ''A63'', ''A65'', ''A68'', ''A69'', ''A6A'', ''A6B'', ''A6C'', ''A6E'']),
      (''A2'', [''A30'', ''A31'', ''A32'', ''A33'', ''A34'']),
      (''A3'', [''A20'', ''A23'', ''A25'', ''A40'', ''A70'', ''A84'', ''A99'']),
      (''A4'', [''A01'', ''A02'', ''A03'', ''A05'', ''A11'', ''A12'', ''A19'', ''A26'', ''A90'']),
      (''B0'', [''B20'', ''B21'', ''B24'', ''B25'', ''B28'']),
      (''B1'', [''B30'', ''B40'', ''B41'', ''B42'', ''B43'', ''B50'', ''B60'']),
      (''B2'', [''B70'', ''B80'', ''B82'', ''B83'', ''B84'']),
      (''B3'', [''B90'', ''B92'', ''B94'', ''B99'']),
      (''B4'', [''B01'', ''B02'', ''B03'', ''B05'', ''B11'', ''B12'', ''B19'']),
      (''X0'', [''X20'', ''X21'', ''X22'', ''X30'', ''X40'', ''X50'', ''X70'']),
      (''X1'', [''X80'', ''X81'', ''X82'', ''X83'', ''X84'']),
      (''X2'', [''X90'', ''X99'']),
      (''X3'', [''X01'', ''X02'', ''X03'', ''X05'', ''X11'', ''X12'']),
      (''E0'', [''E20'', ''E21'', ''E22'', ''E24'']),
      (''E1'', [''E30'', ''E31'', ''E32'', ''E40'', ''E42'']),
      (''E2'', [''E90'', ''E91'', ''E92'']),
      (''E3'', [''E50'', ''E60'', ''E61'', ''E62'', ''E65'', ''E70'', ''E80'', ''E86'', ''E99'']),
      (''E4'', [''E01'', ''E02'', ''E03'', ''E05'', ''E11'', ''E12'', ''E19'']),
      (''F0'', [''F20'', ''F21'', ''F22'', ''F50'', ''F52'', ''F53'', ''F54'']),
      (''F1'', [''F30'', ''F31'', ''F32'', ''F33'', ''F70'', ''F80'', ''F99'']),
      (''F2'', [''F40'', ''F42'', ''F60'']),
      (''F3'', [''F01'', ''F02'', ''F03'', ''F05'', ''F11'', ''F12'', ''F19'']),
      (''G0'', [''G40'', ''G41'', ''G42'', ''G43'', ''G44'', ''G45'', ''G48'', ''G50'', ''G51'', ''G54'', ''G60'', ''G61'', ''G70'']),
      (''G1'', [''G20'', ''G25'', ''G30'', ''G80'', ''G81'', ''G83'', ''G84'']),
      (''G2'', [''G90'', ''G92'', ''G94'', ''G96'', ''G98'', ''G9B'', ''G99'']),
      (''G3'', [''G11'', ''G12'', ''G19'']),
      (''G4'', [''G01'', ''G02'', ''G03'', ''G05'']),
      (''H0'', [''H20'', ''H25'', ''H30'', ''H80'', ''H81'', ''H83'', ''H84'']),
      (''H1'', [''H40'', ''H41'', ''H42'', ''H43'', ''H44'', ''H45'', ''H48'', ''H50'', ''H51'', ''H54'', ''H60'', ''H61'', ''H70'']),
      (''H2'', [''H90'', ''H92'', ''H94'', ''H96'', ''H98'', ''H9B'', ''H99'']),
      (''H3'', [''H01'', ''H02'', ''H03'', ''H05'', ''H11'', ''H12'', ''H19'']),
      (''C0'', [''C20'', ''C27'', ''C35'']),
      (''C1'', [''C30'', ''C32'', ''C34'', ''C36'']),
      (''C2'', [''C40'', ''C41'', ''C42'', ''C50'', ''C60'', ''C99'']),
      (''C3'', [''C01'', ''C02'', ''C03'', ''C05'', ''C11'', ''C12'', ''C19'']),
      (''D0'', [''D20'', ''D40'', ''D60'', ''D61'']),
      (''D1'', [''D30'', ''D31'', ''D32'', ''D33'', ''D34'']),
      (''D2'', [''D50'', ''D99'']),
      (''D3'', [''D01'', ''D02'', ''D03'', ''D05'', ''D11'', ''D12'', ''D19'']),
      (''I0'', [''I20'', ''I21'', ''I23'', ''I70'', ''I71'', ''I72'', ''I73'']),
      (''I1'', [''I30'', ''I31'', ''I40'', ''I43'', ''I44'']),
      (''I2'', [''I50'', ''I51'', ''I60'']),
      (''I3'', [''I80'', ''I83'', ''I99'']),
      (''I4'', [''I01'', ''I02'', ''I03'', ''I05'', ''I11'', ''I12'', ''I19'']),
      (''J0'', [''J20'', ''J21'', ''J22'', ''J99'']),
      (''J1'', [''J30'', ''J32'', ''J33'']),
      (''J2'', [''J03'', ''J40'']),
      (''J3'', [''J01'', ''J02'', ''J05'', ''J11'', ''J12'', ''J19'']),
      (''K0'', [''K30'', ''K31'', ''K34'', ''K35'', ''K36'']),
      (''K1'', [''K20'', ''K25'', ''K26'', ''K28'']),
      (''K2'', [''K40'', ''K50'', ''K99'']),
      (''K3'', [''K01'', ''K02'', ''K03'', ''K05'', ''K11'', ''K12'', ''K19'']),
      (''L0'', [''L20'', ''L21'', ''L22'', ''L25'']),
      (''L1'', [''L40'', ''L41'']),
      (''L2'', [''L30'', ''L50'', ''L80'', ''L81'', ''L82'', ''L99'']),
      (''L3'', [''L01'', ''L02'', ''L03'', ''L05'', ''L11'', ''L12'', ''L19'']),
      (''M0'', [''M20'', ''M23'', ''M24'', ''M99'']),
      (''M1'', [''M40'', ''M41'', ''M42'']),
      (''M2'', [''M01'', ''M02'', ''M03'', ''M05'', ''M11'', ''M12'', ''M19'']),
      (''N0'', [''N20'', ''N30'', ''N31'', ''N32'']),
      (''N1'', [''N50'', ''N60'', ''N61'', ''N62'', ''N63'', ''N64'', ''N65'', ''N66'', ''N67'', ''N68'', ''N69'', ''N6A'']),
      (''N2'', [''N70'', ''N71'', ''N72'']),
      (''N3'', [''N01'', ''N02'', ''N03'', ''N05'', ''N11'', ''N12'', ''N19'']),
      (''O0'', [''O20'', ''O21'', ''O22'', ''O23'']),
      (''O1'', [''O30'', ''O31'', ''O40'', ''O41'', ''O42'', ''O43'']),
      (''O2'', [''O50'', ''O51'', ''O52'', ''O53'', ''O54'', ''O55'', ''O99'']),
      (''O3'', [''O01'', ''O02'', ''O03'', ''O05'', ''O11'', ''O12'', ''O19'']),
      (''P0'', [''P30'', ''P31'', ''P32'', ''P33'', ''P40'', ''P42'', ''P43'', ''P44'', ''P45'', ''P46'']),
      (''P1'', [''P80'', ''P81'', ''P82'', ''P84'', ''P85'', ''P86'', ''P87'']),
      (''P2'', [''P58'', ''P60'', ''P61'', ''P62'']),
      (''P3'', [''P70'', ''P72'', ''P73'', ''P74'', ''P75'']),
      (''P4'', [''P20'', ''P21'', ''P22'', ''P24'', ''P26'', ''P27'', ''P28'', ''P29'', ''P50'', ''P51'', ''P52'', ''P99'']),
      (''P5'', [''P01'', ''P02'', ''P03'', ''P05'', ''P11'', ''P12'', ''P19'']),
      (''Q0'', [''Q30'', ''Q31'', ''Q32'', ''Q33'', ''Q70'', ''Q71'']),
      (''Q1'', [''Q20'', ''Q21'', ''Q22'', ''Q23'']),
      (''Q2'', [''Q40'', ''Q41'', ''Q42'', ''Q43'', ''Q99'']),
      (''Q3'', [''Q01'', ''Q02'', ''Q03'', ''Q05'', ''Q11'', ''Q12'', ''Q19'']),
      (''R0'', [''R20'', ''R22'', ''R23'', ''R24'', ''R25'', ''R26'', ''R30'']),
      (''R1'', [''R40'', ''R60'', ''R61'', ''R62'', ''R63'', ''R67'', ''R99'']),
      (''R2'', [''R01'', ''R02'', ''R03'', ''R05'', ''R11'', ''R12'', ''R19'']),
      (''S0'', [''S20'', ''S21'', ''S22'']),
      (''S1'', [''S30'', ''S31'', ''S32'']),
      (''S2'', [''S40'', ''S41'', ''S43'', ''S46'', ''S47'', ''S50'', ''S80'', ''S81'', ''S82'', ''S99'']),
      (''S3'', [''S01'', ''S02'', ''S03'', ''S05'', ''S11'', ''S12'', ''S19'']),
      (''T0'', [''T20'', ''T21'', ''T22'', ''T23'', ''T90'']),
      (''T1'', [''T30'', ''T31'', ''T70'']),
      (''T2'', [''T40'', ''T50'', ''T99'']),
      (''T3'', [''T01'', ''T02'', ''T03'', ''T05'', ''T11'', ''T12'', ''T19'']),
      (''U0'', [''U30'', ''U31'', ''U33'', ''U34'', ''U36'']),
      (''U1'', [''U40'', ''U41'', ''U42'']),
      (''U2'', [''U20'', ''U21'', ''U50'', ''U99'']),
      (''U3'', [''U01'', ''U02'', ''U03'', ''U05'', ''U11'', ''U12'', ''U19'']),
      (''V0'', [''V20'', ''V21'', ''V22'', ''V23'', ''V24'', ''V25'', ''V26'']),
      (''V1'', [''V30'', ''V31'', ''V32'', ''V33'', ''V34'', ''V35'', ''V36'', ''V37'', ''V99'']),
      (''V2'', [''V01'', ''V02'', ''V03'', ''V05'', ''V11'', ''V12'', ''V19'']),
      (''W0'', [''W30'', ''W40'', ''W50'', ''W60'', ''W99'']),
      (''W1'', [''W70'', ''W71'', ''W72'', ''W73'']),
      (''W2'', [''W01'', ''W02'', ''W03'', ''W05'', ''W11'', ''W12'', ''W19'']),
      (''Y0'', [''Y30'', ''Y33'', ''Y34'', ''Y40'']),
      (''Y1'', [''Y20'', ''Y22'', ''Y99'']),
      (''Y2'', [''Y50'', ''Y60'', ''Y70'']),
      (''Y3'', [''Y01'', ''Y02'', ''Y03'', ''Y05'', ''Y11'', ''Y12'', ''Y19''])]"

record SurveyRequest =
  req_generic_code :: string
  req_location :: string

record CharityResponse =
  resp_generic_code :: string
  resp_location :: string
  resp_ntee_codes :: "string list"
  resp_charities :: "charity list"

definition location_str :: "CharityRow \<Rightarrow> string option" where
  "location_str row =
     (let city = (if truthy (row_city row) then py_str (row_city row) else []);
          state = (if truthy (row_state row) then py_str (row_state row) else [])
      in if city \<noteq> [] \<and> state \<noteq> [] then Some (city @ '', '' @ state)
         else if state \<noteq> [] then Some state
         else None)"

definition normalized :: "CharityRow \<Rightarrow> string \<Rightarrow> charity" where
  "normalized row decile =
     \<lparr>name = Some (if truthy (row_name row) then py_str (row_name row) else ''Unknown''),
      ein = row_ein row,
      profileUrl = None,
      websiteUrl = None,
      nteeCode = Some decile,
      location = location_str row,
      description = None\<rparr>"

fun setdefault_append :: "pools \<Rightarrow> string \<Rightarrow> charity \<Rightarrow> pools" where
  "setdefault_append [] decile c = [(decile, [c])]"
| "setdefault_append ((code, cs) # grouped) decile c =
     (if code = decile then (code, cs @ [c]) # grouped
      else (code, cs) # setdefault_append grouped decile c)"

fun group_charities_by_decile_from :: "pools \<Rightarrow> CharityRow list \<Rightarrow> pools" where
  "group_charities_by_decile_from grouped [] = grouped"
| "group_charities_by_decile_from grouped (row # rows) =
     (if \<not> truthy (row_ntee_code row) then group_charities_by_decile_from grouped rows
      else (let decile = py_str (row_ntee_code row)
            in group_charities_by_decile_from
                 (setdefault_append grouped decile (normalized row decile)) rows))"

definition group_charities_by_decile :: "CharityRow list \<Rightarrow> pools" where
  "group_charities_by_decile rows = group_charities_by_decile_from [] rows"

definition get_api_key :: "env \<Rightarrow> error + string" where
  "get_api_key e =
     (if \<not> truthy (api_key_env e) then Inl (HTTPException 500 ''EVERY_API_KEY is not configured.'')
      else Inr (py_str (api_key_env e)))"

definition cache_get :: "world \<Rightarrow> string \<Rightarrow> detail option" where
  "cache_get w k = (case every_cache w k of None \<Rightarrow> None | Some v \<Rightarrow> v)"

definition cache_negative :: "world \<Rightarrow> string \<Rightarrow> (error + detail option) \<times> world" where
  "cache_negative w k = (Inr None, w\<lparr>every_cache := (every_cache w)(k \<mapsto> None)\<rparr>)"

definition fetch_every_nonprofit_detail ::
  "env \<Rightarrow> world \<Rightarrow> string \<Rightarrow> (error + detail option) \<times> world" where
  "fetch_every_nonprofit_detail e w k =
     (if k = [] then (Inr None, w)
      else case cache_get w k of
        Some cached \<Rightarrow> (Inr (Some cached), w)
      | None \<Rightarrow>
         (case get_api_key e of
            Inl err \<Rightarrow> (Inl err, w)
          | Inr api_key \<Rightarrow>
             (let w' = w\<lparr>requests := requests w @ [k]\<rparr>
              in case every_org e (length (requests w)) k of
                   RequestException \<Rightarrow> cache_negative w' k
                 | Response status_code b \<Rightarrow>
                     if status_code \<ge> 400 then cache_negative w' k
                     else (case b of
                             BadJson \<Rightarrow> cache_negative w' k
                           | Json PayloadOther \<Rightarrow> (Inl AttributeError, w')
                           | Json (PayloadDict DataOther) \<Rightarrow> (Inl AttributeError, w')
                           | Json (PayloadDict DataMissing) \<Rightarrow> cache_negative w' k
                           | Json (PayloadDict (DataDict NonprofitMissing)) \<Rightarrow> cache_negative w' k
                           | Json (PayloadDict (DataDict NonprofitOther)) \<Rightarrow> cache_negative w' k
                           | Json (PayloadDict (DataDict (NonprofitDict nonprofit))) \<Rightarrow>
                               if nonprofit = [] then cache_negative w' k
                               else (Inr (Some nonprofit),
                                     w'\<lparr>every_cache := (every_cache w')(k \<mapsto> Some nonprofit)\<rparr>)))))"

definition detail_get :: "detail \<Rightarrow> string \<Rightarrow> string option" where
  "detail_get d k = (case map_of d k of None \<Rightarrow> None | Some v \<Rightarrow> v)"

definition apply_detail :: "detail \<Rightarrow> charity \<Rightarrow> charity" where
  "apply_detail d c =
     (let profile_url = py_or (py_or (detail_get d ''profileUrl'') (detail_get d ''profile''))
                              (detail_get d ''url'');
          website_url = py_or (detail_get d ''websiteUrl'') (detail_get d ''website'');
          description' = py_or (detail_get d ''description'') (detail_get d ''mission'');
          location' = py_or (py_or (detail_get d ''location'') (detail_get d ''locationName''))
                            (location c);
          ntee_code = py_or (detail_get d ''nteeCode'') (nteeCode c);
          c1 = (if truthy profile_url then c\<lparr>profileUrl := profile_url\<rparr> else c);
          c2 = (if truthy website_url then c1\<lparr>websiteUrl := website_url\<rparr> else c1);
          c3 = (if truthy description' then c2\<lparr>description := description'\<rparr> else c2);
          c4 = (if truthy location' then c3\<lparr>location := location'\<rparr> else c3);
          c5 = (if truthy ntee_code then c4\<lparr>nteeCode := ntee_code\<rparr> else c4)
      in c5)"

fun enrich_charities_with_every ::
  "env \<Rightarrow> world \<Rightarrow> charity list \<Rightarrow> (error + charity list) \<times> world" where
  "enrich_charities_with_every e w [] = (Inr [], w)"
| "enrich_charities_with_every e w (c # cs) =
     (if \<not> truthy (ein c) then
        (case enrich_charities_with_every e w cs of
           (Inl err, w') \<Rightarrow> (Inl err, w')
         | (Inr cs', w') \<Rightarrow> (Inr (c # cs'), w'))
      else
        (case fetch_every_nonprofit_detail e w (py_str (ein c)) of
           (Inl err, w1) \<Rightarrow> (Inl err, w1)
         | (Inr r, w1) \<Rightarrow>
             (let c' = (case r of None \<Rightarrow> c
                        | Some d \<Rightarrow> if d = [] then c else apply_detail d c)
              in case enrich_charities_with_every e w1 cs of
                   (Inl err, w') \<Rightarrow> (Inl err, w')
                 | (Inr cs', w') \<Rightarrow> (Inr (c' # cs'), w'))))"


subsection \<open>normalize_state\<close>

definition normalize_state :: "string \<Rightarrow> string" where
  "normalize_state location' =
     (let loc = strip location' in
      if loc = [] then ''any''
      else if lower loc = ''any'' then ''any''
      else if length loc = 2 \<and> isalpha loc then upper loc
      else ''any'')"

subsection \<open>get_daily_featured_pool\<close>

fun fromkeys :: "string list \<Rightarrow> string list" where
  "fromkeys [] = []"
| "fromkeys (k # ks) = k # fromkeys (filter (\<lambda>k'. k' \<noteq> k) ks)"

definition table_get :: "string \<Rightarrow> string list" where
  "table_get code = (case map_of GENERIC_TO_NTEE code of None \<Rightarrow> [] | Some ds \<Rightarrow> ds)"

fun normalize_rows :: "CharityRow list \<Rightarrow> charity list" where
  "normalize_rows [] = []"
| "normalize_rows (row # rows) =
     (if \<not> truthy (row_ntee_code row) then normalize_rows rows
      else normalized row (py_str (row_ntee_code row)) # normalize_rows rows)"

definition get_daily_featured_pool :: "env \<Rightarrow> world \<Rightarrow> int \<Rightarrow> (error + charity list) \<times> world" where
  "get_daily_featured_pool e w pool_size =
     (let sample_generic_codes = [''D0'', ''B0'', ''E0'', ''P0'', ''C0'', ''N0''];
          decile_candidates = concat (map table_get sample_generic_codes);
          deciles = fromkeys decile_candidates
      in if deciles = [] then (Inr [], w)
         else (case fetch_random_pool_for_deciles e w deciles None pool_size None of
                 (Inl err, w') \<Rightarrow> (Inl err, w')
               | (Inr rows, w') \<Rightarrow> (Inr (normalize_rows rows), w')))"

subsection \<open>round_robin_select\<close>

definition pools_get :: "pools \<Rightarrow> string \<Rightarrow> charity list" where
  "pools_get charities_by_code code =
     (case map_of charities_by_code code of None \<Rightarrow> [] | Some cs \<Rightarrow> cs)"

text \<open>
  \<^verbatim>\<open>charity.get("ein") or charity.get("profileUrl") or f"{charity.get('name')}-{code}"\<close>
\<close>

definition unique_id :: "string \<Rightarrow> charity \<Rightarrow> string" where
  "unique_id code c =
     (if truthy (ein c) then py_str (ein c)
      else if truthy (profileUrl c) then py_str (profileUrl c)
      else py_str (name c) @ ''-'' @ code)"

record rr_state =
  selected :: "charity list"
  seen_ids :: "string set"
  indices :: "string \<rightharpoonup> nat"
  progressed :: bool

definition indices_get :: "rr_state \<Rightarrow> string \<Rightarrow> nat" where
  "indices_get s code = (case indices s code of None \<Rightarrow> 0 | Some i \<Rightarrow> i)"

text \<open>
  The inner \<^verbatim>\<open>while idx < len(charities)\<close> loop: it walks from \<open>idx\<close> over the
  candidates whose id is empty or already seen and stops at the first fresh one, which it
  returns with its id and the cursor after it; \<open>None\<close> when the list runs out.
\<close>

function scan :: "string \<Rightarrow> charity list \<Rightarrow> string set \<Rightarrow> nat \<Rightarrow> (charity \<times> string \<times> nat) option" where
  "scan code charities seen idx =
     (if idx < length charities then
        (let c = charities ! idx;
             uid = unique_id code c;
             idx' = idx + 1
         in if uid = [] \<or> uid \<in> seen then scan code charities seen idx'
            else Some (c, uid, idx'))
      else None)"
  by pat_completeness auto
termination
  by (relation "measure (\<lambda>(code, charities, seen, idx). length charities - idx)") auto

declare scan.simps [simp del]

text \<open>One turn of a category inside the \<^verbatim>\<open>for code in codes\<close> loop.\<close>

definition turn :: "pools \<Rightarrow> string \<Rightarrow> rr_state \<Rightarrow> rr_state" where
  "turn charities_by_code code s =
     (case scan code (pools_get charities_by_code code) (seen_ids s) (indices_get s code) of
        None \<Rightarrow> s
      | Some (c, uid, idx') \<Rightarrow>
          s\<lparr>selected := selected s @ [c],
            seen_ids := insert uid (seen_ids s),
            indices := (indices s)(code \<mapsto> idx'),
            progressed := True\<rparr>)"

text \<open>The \<^verbatim>\<open>for\<close> loop, with its \<^verbatim>\<open>break\<close> once the limit is reached.\<close>

fun for_codes :: "pools \<Rightarrow> int \<Rightarrow> string list \<Rightarrow> rr_state \<Rightarrow> rr_state" where
  "for_codes charities_by_code limit [] s = s"
| "for_codes charities_by_code limit (code # codes) s =
     (let s' = turn charities_by_code code s
      in if int (length (selected s')) \<ge> limit then s'
         else for_codes charities_by_code limit codes s')"

lemma turn_length:
  "length (selected (turn p code s)) =
     (if scan code (pools_get p code) (seen_ids s) (indices_get s code) = None
      then length (selected s) else Suc (length (selected s)))"
  by (auto simp: turn_def split: option.splits)

lemma turn_progressed:
  "progressed (turn p code s) =
     (progressed s \<or> scan code (pools_get p code) (seen_ids s) (indices_get s code) \<noteq> None)"
  by (auto simp: turn_def split: option.splits)

lemma for_codes_grows:
  "length (selected s) \<le> length (selected (for_codes p limit codes s))"
proof (induction codes arbitrary: s)
  case Nil
  show ?case by simp
next
  case (Cons code codes)
  have "length (selected s) \<le> length (selected (turn p code s))"
    by (simp add: turn_length)
  with Cons.IH [of "turn p code s"] show ?case
    by (simp add: Let_def)
qed

lemma for_codes_progress:
  "progressed (for_codes p limit codes s) \<Longrightarrow> \<not> progressed s \<Longrightarrow>
     length (selected s) < length (selected (for_codes p limit codes s))"
proof (induction codes arbitrary: s)
  case Nil
  then show ?case by simp
next
  case (Cons code codes)
  show ?case
  proof (cases "scan code (pools_get p code) (seen_ids s) (indices_get s code)")
    case None
    then have same: "turn p code s = s"
      by (simp add: turn_def)
    with Cons show ?thesis
      by (simp add: Let_def split: if_splits)
  next
    case (Some r)
    then have "length (selected (turn p code s)) = Suc (length (selected s))"
      by (simp add: turn_length)
    moreover have "length (selected (turn p code s))
        \<le> length (selected (for_codes p limit (code # codes) s))"
      using for_codes_grows [of "turn p code s" p limit codes] by (simp add: Let_def)
    ultimately show ?thesis by simp
  qed
qed

text \<open>The outer \<^verbatim>\<open>while len(selected) < limit\<close> loop, one round per call.\<close>

function rounds :: "pools \<Rightarrow> int \<Rightarrow> string list \<Rightarrow> rr_state \<Rightarrow> rr_state" where
  "rounds charities_by_code limit codes s =
     (if int (length (selected s)) < limit then
        (let s' = for_codes charities_by_code limit codes (s\<lparr>progressed := False\<rparr>)
         in if \<not> progressed s' then s'
            else rounds charities_by_code limit codes s')
      else s)"
  by pat_completeness auto
termination
proof (relation "measure (\<lambda>(p, limit, codes, s). nat (limit - int (length (selected s))))", goal_cases)
  case 1
  show ?case by simp
next
  case (2 p limit codes s s')
  then have "length (selected (s\<lparr>progressed := False\<rparr>)) < length (selected s')"
    using for_codes_progress [of p limit codes "s\<lparr>progressed := False\<rparr>"] by simp
  with 2 show ?case by simp
qed

declare rounds.simps [simp del]

definition round_robin_select :: "pools \<Rightarrow> int \<Rightarrow> charity list" where
  "round_robin_select charities_by_code limit =
     (let codes = map fst (filter (\<lambda>(code, charities). charities \<noteq> []) charities_by_code);
          s0 = \<lparr>selected = [], seen_ids = {},
                indices = map_of (map (\<lambda>code. (code, 0)) codes),
                progressed = False\<rparr>
      in if codes = [] then selected s0
         else selected (rounds charities_by_code limit codes s0))"

subsection \<open>recommend_charities and get_featured_charities\<close>

definition recommend_charities ::
  "env \<Rightarrow> world \<Rightarrow> SurveyRequest \<Rightarrow> (error + CharityResponse) \<times> world" where
  "recommend_charities e w payload =
     (let generic_code = upper (strip (req_generic_code payload));
          location' = strip (req_location payload)
      in if generic_code = [] then (Inl (HTTPException 400 ''generic_code is required.''), w)
         else case map_of GENERIC_TO_NTEE generic_code of
           None \<Rightarrow> (Inl (HTTPException 400 (''Unknown generic code: '' @ generic_code)), w)
         | Some target_deciles \<Rightarrow>
            if target_deciles = []
            then (Inl (HTTPException 400 (''Unknown generic code: '' @ generic_code)), w)
            else
             (let state_code = normalize_state location';
                  pool_size = MAX_CHARITIES * 4
              in case fetch_random_pool_for_deciles e w target_deciles
                        (if state_code = ''any'' then None else Some state_code) pool_size None of
                   (Inl err, w1) \<Rightarrow> (Inl err, w1)
                 | (Inr pool, w1) \<Rightarrow>
                    if pool = [] then
                      (Inl (HTTPException 404
                        ''No charities found in the database for these NTEE codes and location.''), w1)
                    else
                     (let charities_by_decile = group_charities_by_decile pool;
                          selected' = round_robin_select charities_by_decile MAX_CHARITIES
                      in if selected' = [] then
                           (Inl (HTTPException 404
                             ''No charities could be selected after grouping.''), w1)
                         else (case enrich_charities_with_every e w1 selected' of
                                 (Inl err, w2) \<Rightarrow> (Inl err, w2)
                               | (Inr enriched, w2) \<Rightarrow>
                                   (Inr \<lparr>resp_generic_code = generic_code,
                                         resp_location = location',
                                         resp_ntee_codes = target_deciles,
                                         resp_charities = enriched\<rparr>, w2)))))"

record date =
  year :: nat
  month :: nat
  day :: nat

record featured =
  feat_date :: date
  feat_count :: nat
  feat_charities :: "charity list"

definition get_featured_charities :: "env \<Rightarrow> world \<Rightarrow> date \<Rightarrow> (error + featured) \<times> world" where
  "get_featured_charities e w today =
     (let seed = int (year today * 10000 + month today * 100 + day today)
      in case get_daily_featured_pool e w 200 of
           (Inl err, w1) \<Rightarrow> (Inl err, w1)
         | (Inr pool, w1) \<Rightarrow>
            if pool = [] then (Inr \<lparr>feat_date = today, feat_count = 0, feat_charities = []\<rparr>, w1)
            else (case enrich_charities_with_every e w1 pool of
                    (Inl err, w2) \<Rightarrow> (Inl err, w2)
                  | (Inr enriched, w2) \<Rightarrow>
                     (let with_website = filter (\<lambda>c. truthy (websiteUrl c)) enriched;
                          featured' = take 6 (shuffle e seed with_website)
                      in (Inr \<lparr>feat_date = today, feat_count = length featured',
                               feat_charities = featured'\<rparr>, w2))))"

section \<open>Facts about the round-robin selection\<close>

lemmas string_defs =
  strip_def is_space_def whitespace_def lower_def lower_char_def upper_def upper_char_def
  lowercase_def uppercase_def isalpha_def

lemma unique_id_nonempty: "unique_id code c \<noteq> []"
  by (auto simp: unique_id_def truthy_def py_str_def split: option.splits)

lemma scan_end: "length cs \<le> idx \<Longrightarrow> scan code cs seen idx = None"
  by (subst scan.simps) simp

lemma scan_hit:
  "idx < length cs \<Longrightarrow> unique_id code (cs ! idx) \<notin> seen \<Longrightarrow>
   scan code cs seen idx = Some (cs ! idx, unique_id code (cs ! idx), Suc idx)"
  by (subst scan.simps) (simp add: Let_def unique_id_nonempty)

lemma scan_skip:
  "idx < length cs \<Longrightarrow> unique_id code (cs ! idx) \<in> seen \<Longrightarrow>
   scan code cs seen idx = scan code cs seen (Suc idx)"
  by (subst scan.simps) (simp add: Let_def)

text \<open>
  Claim C4. For the pools \<open>{A: [a1, a2, a3], B: [b1]}\<close>, whose four candidates have
  pairwise distinct dedup identities, and the limit 3, \<open>round_robin_select\<close> returns
  exactly \<open>[a1, b1, a2]\<close>: the categories take turns in the order of the pools, and
  once \<open>B\<close> is exhausted \<open>A\<close> goes on alone.
\<close>

theorem round_robin_interleaves:
  assumes "A \<noteq> B"
    and "distinct [unique_id A a1, unique_id A a2, unique_id A a3, unique_id B b1]"
  shows "round_robin_select [(A, [a1, a2, a3]), (B, [b1])] 3 = [a1, b1, a2]"
proof -
  have fresh: "unique_id B b1 \<noteq> unique_id A a1" "unique_id A a2 \<noteq> unique_id A a1"
    "unique_id A a2 \<noteq> unique_id B b1"
    using assms(2) by auto
  show ?thesis
    using assms(1) fresh
    apply (simp add: round_robin_select_def Let_def)
    apply (subst rounds.simps)
    apply (simp add: Let_def turn_def pools_get_def indices_get_def scan_hit)
    apply (subst rounds.simps)
    apply (simp add: Let_def turn_def pools_get_def indices_get_def scan_hit scan_skip scan_end)
    apply (subst rounds.simps)
    apply simp
    done
qed

definition candidate :: "string \<Rightarrow> string \<Rightarrow> charity" where
  "candidate n e =
     \<lparr>name = Some n, ein = Some e, profileUrl = None, websiteUrl = None,
      nteeCode = None, location = None, description = None\<rparr>"

theorem round_robin_interleaves_witness:
  "''A'' \<noteq> ''B'' \<and>
   distinct [unique_id ''A'' (candidate ''a1'' ''11''), unique_id ''A'' (candidate ''a2'' ''12''),
             unique_id ''A'' (candidate ''a3'' ''13''), unique_id ''B'' (candidate ''b1'' ''21'')] \<and>
   round_robin_select
     [(''A'', [candidate ''a1'' ''11'', candidate ''a2'' ''12'', candidate ''a3'' ''13'']),
      (''B'', [candidate ''b1'' ''21''])] 3
   = [candidate ''a1'' ''11'', candidate ''b1'' ''21'', candidate ''a2'' ''12'']"
  using round_robin_interleaves [of "''A''" "''B''" "candidate ''a1'' ''11''"
      "candidate ''a2'' ''12''" "candidate ''a3'' ''13''" "candidate ''b1'' ''21''"]
  by (simp add: unique_id_def truthy_def py_str_def candidate_def)

section \<open>Facts about normalize_state\<close>

text \<open>
  Claim C10. A location that, once trimmed, is not empty, is not \<open>any\<close> in whatever
  letter case, and is not made of exactly two letters (\<open>California\<close>, \<open>NY2\<close>) is
  normalized to \<open>any\<close>: the region filter is dropped, the request is not rejected and
  the text is not matched literally.
\<close>

theorem normalize_state_drops_other_text:
  assumes "strip loc \<noteq> []"
    and "lower (strip loc) \<noteq> ''any''"
    and "\<not> (length (strip loc) = 2 \<and> isalpha (strip loc))"
  shows "normalize_state loc = ''any''"
  using assms by (auto simp: normalize_state_def Let_def)

theorem normalize_state_drops_other_text_witness:
  "strip ''California'' \<noteq> [] \<and> lower (strip ''California'') \<noteq> ''any'' \<and>
   \<not> (length (strip ''California'') = 2 \<and> isalpha (strip ''California'')) \<and>
   normalize_state ''California'' = ''any''"
  using normalize_state_drops_other_text [of "''California''"]
  by (simp add: string_defs)



section \<open>The size and the distinctness of the selection\<close>

definition candidates :: "pools \<Rightarrow> (string \<times> charity) list" where
  "candidates p = concat (map (\<lambda>(code, cs). map (Pair code) cs) p)"

definition pool_ids :: "pools \<Rightarrow> string list" where
  "pool_ids p = map (\<lambda>(code, c). unique_id code c) (candidates p)"

lemma in_candidates:
  "(code, c) \<in> set (candidates p) \<longleftrightarrow> (\<exists>cs. (code, cs) \<in> set p \<and> c \<in> set cs)"
  by (auto simp: candidates_def)

lemma scan_Some:
  "scan code cs seen idx = Some (c, uid, idx') \<Longrightarrow>
     idx < idx' \<and> idx' \<le> length cs \<and> c = cs ! (idx' - 1) \<and> uid = unique_id code c \<and>
     uid \<notin> seen \<and> (\<forall>i. idx \<le> i \<and> i < idx' - 1 \<longrightarrow> unique_id code (cs ! i) \<in> seen)"
proof (induction code cs seen idx rule: scan.induct)
  case (1 code cs seen idx)
  show ?case
  proof (cases "idx < length cs")
    case False
    with "1.prems" show ?thesis by (simp add: scan_end)
  next
    case True
    show ?thesis
    proof (cases "unique_id code (cs ! idx) \<in> seen")
      case False
      with True "1.prems" show ?thesis by (auto simp: scan_hit)
    next
      case hit: True
      with True "1.prems" have next_scan: "scan code cs seen (Suc idx) = Some (c, uid, idx')"
        by (simp add: scan_skip)
      have IH: "idx + 1 < idx' \<and> idx' \<le> length cs \<and> c = cs ! (idx' - 1) \<and> uid = unique_id code c \<and>
          uid \<notin> seen \<and> (\<forall>i. idx + 1 \<le> i \<and> i < idx' - 1 \<longrightarrow> unique_id code (cs ! i) \<in> seen)"
      proof (rule "1.IH" [OF True refl refl refl])
        show "unique_id code (cs ! idx) = [] \<or> unique_id code (cs ! idx) \<in> seen"
          using hit by simp
        show "scan code cs seen (idx + 1) = Some (c, uid, idx')"
          using next_scan by simp
      qed
      have "unique_id code (cs ! i) \<in> seen" if "idx \<le> i" "i < idx' - 1" for i
      proof (cases "i = idx")
        case True
        with hit show ?thesis by simp
      next
        case False
        with that IH show ?thesis by simp
      qed
      with IH show ?thesis by auto
    qed
  qed
qed

lemma scan_None:
  "scan code cs seen idx = None \<Longrightarrow> idx \<le> i \<Longrightarrow> i < length cs \<Longrightarrow>
     unique_id code (cs ! i) \<in> seen"
proof (induction code cs seen idx rule: scan.induct)
  case (1 code cs seen idx)
  from "1.prems" have in_range: "idx < length cs" by simp
  show ?case
  proof (cases "unique_id code (cs ! idx) \<in> seen")
    case False
    with in_range "1.prems" show ?thesis by (simp add: scan_hit)
  next
    case hit: True
    with in_range "1.prems" have next_scan: "scan code cs seen (Suc idx) = None"
      by (simp add: scan_skip)
    show ?thesis
    proof (cases "i = idx")
      case True
      with hit show ?thesis by simp
    next
      case False
      with "1.prems" have "Suc idx \<le> i" by simp
      show ?thesis
      proof (rule "1.IH" [OF in_range refl refl refl])
        show "unique_id code (cs ! idx) = [] \<or> unique_id code (cs ! idx) \<in> seen"
          using hit by simp
        show "scan code cs seen (idx + 1) = None"
          using next_scan by simp
        show "idx + 1 \<le> i" using \<open>Suc idx \<le> i\<close> by simp
        show "i < length cs" by (rule "1.prems")
      qed
    qed
  qed
qed


definition tagged :: "pools \<Rightarrow> string list \<Rightarrow> charity list \<Rightarrow> bool" where
  "tagged p ks cs \<longleftrightarrow>
     length ks = length cs \<and> set (zip ks cs) \<subseteq> set (candidates p) \<and>
     distinct (map2 unique_id ks cs)"

definition rr_inv :: "pools \<Rightarrow> rr_state \<Rightarrow> bool" where
  "rr_inv p s \<longleftrightarrow>
     (\<exists>ks. tagged p ks (selected s) \<and> seen_ids s = set (map2 unique_id ks (selected s))) \<and>
     (\<forall>code i. i < indices_get s code \<longrightarrow> i < length (pools_get p code) \<longrightarrow>
        unique_id code (pools_get p code ! i) \<in> seen_ids s)"

lemma pools_get_candidate:
  assumes "i < length (pools_get p code)"
  shows "(code, pools_get p code ! i) \<in> set (candidates p)"
proof -
  from assms obtain cs where cs: "map_of p code = Some cs" "pools_get p code = cs"
    by (cases "map_of p code") (auto simp: pools_get_def)
  then have "(code, cs) \<in> set p" by (simp add: map_of_SomeD)
  moreover have "cs ! i \<in> set cs" using assms cs by simp
  ultimately show ?thesis using cs by (auto simp: in_candidates)
qed

lemma turn_inv:
  assumes "rr_inv p s"
  shows "rr_inv p (turn p code s)"
proof (cases "scan code (pools_get p code) (seen_ids s) (indices_get s code)")
  case None
  with assms show ?thesis by (simp add: turn_def)
next
  case (Some r)
  obtain c uid idx' where r: "r = (c, uid, idx')" by (cases r)
  let ?cs = "pools_get p code"
  from scan_Some [OF Some [unfolded r]]
  have facts: "indices_get s code < idx'" "idx' \<le> length ?cs" "c = ?cs ! (idx' - 1)"
      "uid = unique_id code c" "uid \<notin> seen_ids s"
    and skipped: "\<And>i. indices_get s code \<le> i \<Longrightarrow> i < idx' - 1 \<Longrightarrow> unique_id code (?cs ! i) \<in> seen_ids s"
    by auto
  have t: "turn p code s = s\<lparr>selected := selected s @ [c], seen_ids := insert uid (seen_ids s),
      indices := (indices s)(code \<mapsto> idx'), progressed := True\<rparr>"
    using Some r by (simp add: turn_def)
  from assms obtain ks where ks: "tagged p ks (selected s)"
      "seen_ids s = set (map2 unique_id ks (selected s))"
    and cursor: "\<And>code i. i < indices_get s code \<Longrightarrow> i < length (pools_get p code) \<Longrightarrow>
        unique_id code (pools_get p code ! i) \<in> seen_ids s"
    unfolding rr_inv_def by blast
  have cand: "(code, c) \<in> set (candidates p)"
    using facts pools_get_candidate [of "idx' - 1" p code] by simp
  have tag': "tagged p (ks @ [code]) (selected s @ [c])"
    using ks cand facts by (auto simp: tagged_def)
  have seen': "insert uid (seen_ids s) = set (map2 unique_id (ks @ [code]) (selected s @ [c]))"
    using ks facts by (auto simp: tagged_def)
  have cursor': "unique_id code' (pools_get p code' ! i) \<in> insert uid (seen_ids s)"
    if "i < indices_get (turn p code s) code'" "i < length (pools_get p code')" for code' i
  proof (cases "code' = code")
    case False
    with that have "i < indices_get s code'" by (simp add: t indices_get_def)
    with cursor that show ?thesis by simp
  next
    case True
    with that have lt: "i < idx'" by (simp add: t indices_get_def)
    consider "i < indices_get s code" | "indices_get s code \<le> i" "i < idx' - 1" | "i = idx' - 1"
      using lt by linarith
    then show ?thesis
    proof cases
      case 1
      with cursor that True show ?thesis by simp
    next
      case 2
      with skipped True show ?thesis by simp
    next
      case 3
      with facts True show ?thesis by simp
    qed
  qed
  show ?thesis
    unfolding rr_inv_def
  proof (intro conjI allI impI)
    show "\<exists>ks. tagged p ks (selected (turn p code s)) \<and>
        seen_ids (turn p code s) = set (map2 unique_id ks (selected (turn p code s)))"
      using tag' seen' by (auto simp: t intro!: exI [of _ "ks @ [code]"])
  next
    fix code' i
    assume "i < indices_get (turn p code s) code'" "i < length (pools_get p code')"
    from cursor' [OF this] show "unique_id code' (pools_get p code' ! i) \<in> seen_ids (turn p code s)"
      by (simp add: t)
  qed
qed

lemma rr_inv_reset: "rr_inv p (s\<lparr>progressed := b\<rparr>) = rr_inv p s"
  by (simp add: rr_inv_def indices_get_def)

lemma for_codes_inv: "rr_inv p s \<Longrightarrow> rr_inv p (for_codes p limit codes s)"
  by (induction codes arbitrary: s) (auto simp: Let_def turn_inv)

lemma rounds_inv: "rr_inv p s \<Longrightarrow> rr_inv p (rounds p limit codes s)"
proof (induction p limit codes s rule: rounds.induct)
  case (1 p limit codes s)
  show ?case
  proof (cases "int (length (selected s)) < limit")
    case False
    with "1.prems" show ?thesis by (subst rounds.simps) simp
  next
    case True
    let ?s' = "for_codes p limit codes (s\<lparr>progressed := False\<rparr>)"
    have inv': "rr_inv p ?s'"
      using "1.prems" by (simp add: for_codes_inv rr_inv_reset)
    show ?thesis
    proof (cases "progressed ?s'")
      case False
      with True inv' show ?thesis by (subst rounds.simps) (simp add: Let_def)
    next
      case progress: True
      from "1.IH" [OF True refl _ inv'] progress have "rr_inv p (rounds p limit codes ?s')"
        by simp
      with True progress show ?thesis by (subst rounds.simps) (simp add: Let_def)
    qed
  qed
qed


lemma for_codes_bound:
  "int (length (selected s)) < limit \<Longrightarrow>
     int (length (selected (for_codes p limit codes s))) \<le> limit"
proof (induction codes arbitrary: s)
  case Nil
  then show ?case by simp
next
  case (Cons code codes)
  have "length (selected (turn p code s)) \<le> Suc (length (selected s))"
    by (simp add: turn_length)
  with Cons.prems have step: "int (length (selected (turn p code s))) \<le> limit"
    by simp
  show ?case
  proof (cases "limit \<le> int (length (selected (turn p code s)))")
    case True
    with step show ?thesis by (simp add: Let_def)
  next
    case False
    then have "int (length (selected (turn p code s))) < limit" by simp
    from Cons.IH [OF this] False show ?thesis by (simp add: Let_def)
  qed
qed

lemma rounds_bound:
  "int (length (selected s)) \<le> limit \<Longrightarrow>
     int (length (selected (rounds p limit codes s))) \<le> limit"
proof (induction p limit codes s rule: rounds.induct)
  case (1 p limit codes s)
  show ?case
  proof (cases "int (length (selected s)) < limit")
    case False
    with "1.prems" show ?thesis by (subst rounds.simps) simp
  next
    case True
    let ?s' = "for_codes p limit codes (s\<lparr>progressed := False\<rparr>)"
    have bound': "int (length (selected ?s')) \<le> limit"
      using True by (simp add: for_codes_bound)
    show ?thesis
    proof (cases "progressed ?s'")
      case False
      with True bound' show ?thesis by (subst rounds.simps) (simp add: Let_def)
    next
      case progress: True
      from "1.IH" [OF True refl _ bound'] progress
      have "int (length (selected (rounds p limit codes ?s'))) \<le> limit"
        by simp
      with True progress show ?thesis by (subst rounds.simps) (simp add: Let_def)
    qed
  qed
qed

lemma for_codes_keeps_progressed:
  "progressed s \<Longrightarrow> progressed (for_codes p limit codes s)"
  by (induction codes arbitrary: s) (auto simp: Let_def turn_progressed)

definition exhausted :: "pools \<Rightarrow> string list \<Rightarrow> rr_state \<Rightarrow> bool" where
  "exhausted p codes s \<longleftrightarrow>
     (\<forall>code \<in> set codes. scan code (pools_get p code) (seen_ids s) (indices_get s code) = None)"

lemma for_codes_stuck:
  "\<not> progressed (for_codes p limit codes s) \<Longrightarrow> int (length (selected s)) < limit \<Longrightarrow>
     for_codes p limit codes s = s \<and> exhausted p codes s"
proof (induction codes arbitrary: s)
  case Nil
  then show ?case by (simp add: exhausted_def)
next
  case (Cons code codes)
  have none: "scan code (pools_get p code) (seen_ids s) (indices_get s code) = None"
  proof (rule ccontr)
    assume "scan code (pools_get p code) (seen_ids s) (indices_get s code) \<noteq> None"
    then have "progressed (turn p code s)" by (simp add: turn_progressed)
    then have "progressed (for_codes p limit (code # codes) s)"
      by (auto simp: Let_def for_codes_keeps_progressed)
    with Cons.prems show False by simp
  qed
  then have same: "turn p code s = s" by (simp add: turn_def)
  with Cons.prems have rest: "\<not> progressed (for_codes p limit codes s)"
    by (simp add: Let_def)
  from Cons.IH [OF rest Cons.prems(2)] none same Cons.prems(2) show ?case
    by (simp add: Let_def exhausted_def)
qed

lemma exhausted_reset: "exhausted p codes (s\<lparr>progressed := b\<rparr>) = exhausted p codes s"
  by (simp add: exhausted_def indices_get_def)

lemma rounds_exit:
  "limit \<le> int (length (selected (rounds p limit codes s))) \<or>
     exhausted p codes (rounds p limit codes s)"
proof (induction p limit codes s rule: rounds.induct)
  case (1 p limit codes s)
  show ?case
  proof (cases "int (length (selected s)) < limit")
    case False
    then show ?thesis by (subst (1 2) rounds.simps) simp
  next
    case True
    let ?s0 = "s\<lparr>progressed := False\<rparr>"
    let ?s' = "for_codes p limit codes ?s0"
    show ?thesis
    proof (cases "progressed ?s'")
      case False
      have "int (length (selected ?s0)) < limit" using True by simp
      from for_codes_stuck [OF False this] have "exhausted p codes ?s'"
        by simp
      moreover have "rounds p limit codes s = ?s'"
        using True False by (subst rounds.simps) (simp add: Let_def)
      ultimately show ?thesis by simp
    next
      case progress: True
      have "rounds p limit codes s = rounds p limit codes ?s'"
        using True progress by (subst rounds.simps) (simp add: Let_def)
      with "1.IH" [OF True refl] progress show ?thesis by simp
    qed
  qed
qed


definition dedup_identity :: "charity \<Rightarrow> string" where
  "dedup_identity c =
     (if truthy (ein c) then py_str (ein c)
      else if truthy (profileUrl c) then py_str (profileUrl c)
      else py_str (name c) @ ''-'' @ py_str (nteeCode c))"

definition filed_by_code :: "pools \<Rightarrow> bool" where
  "filed_by_code p = list_all (\<lambda>(code, cs). list_all (\<lambda>c. nteeCode c = Some code) cs) p"

lemma filed_identity:
  "filed_by_code p \<Longrightarrow> (code, c) \<in> set (candidates p) \<Longrightarrow> unique_id code c = dedup_identity c"
  by (auto simp: filed_by_code_def in_candidates list_all_iff unique_id_def dedup_identity_def py_str_def)

lemma tagged_ids_subset: "tagged p ks cs \<Longrightarrow> set (map2 unique_id ks cs) \<subseteq> set (pool_ids p)"
  by (auto simp: tagged_def pool_ids_def)

lemma tagged_filed:
  assumes "tagged p ks cs" "filed_by_code p"
  shows "map2 unique_id ks cs = map dedup_identity cs"
proof -
  have "map2 unique_id ks cs = map (dedup_identity \<circ> snd) (zip ks cs)"
    using assms by (auto simp: tagged_def filed_identity)
  also have "\<dots> = map dedup_identity (map snd (zip ks cs))" by simp
  also have "map snd (zip ks cs) = cs" using assms by (simp add: tagged_def)
  finally show ?thesis .
qed

lemma exhausted_all_seen:
  assumes keys: "distinct (map fst p)"
    and inv: "rr_inv p s"
    and ex: "exhausted p (map fst (filter (\<lambda>(code, cs). cs \<noteq> []) p)) s"
  shows "set (pool_ids p) \<subseteq> seen_ids s"
proof
  fix uid assume "uid \<in> set (pool_ids p)"
  then obtain code c where cand: "(code, c) \<in> set (candidates p)" and uid: "uid = unique_id code c"
    by (auto simp: pool_ids_def)
  then obtain cs where cs: "(code, cs) \<in> set p" "c \<in> set cs"
    by (auto simp: in_candidates)
  then obtain i where i: "i < length cs" "c = cs ! i"
    by (auto simp: in_set_conv_nth)
  from keys cs have get: "pools_get p code = cs"
    by (simp add: pools_get_def)
  from cs have "cs \<noteq> []" by auto
  with cs have "code \<in> set (map fst (filter (\<lambda>(code, cs). cs \<noteq> []) p))"
    by force
  with ex have "scan code (pools_get p code) (seen_ids s) (indices_get s code) = None"
    unfolding exhausted_def by blast
  then have none: "scan code cs (seen_ids s) (indices_get s code) = None"
    by (simp only: get)
  show "uid \<in> seen_ids s"
  proof (cases "i < indices_get s code")
    case True
    with inv i get uid show ?thesis by (auto simp: rr_inv_def)
  next
    case False
    then have "indices_get s code \<le> i" by simp
    from scan_None [OF none this i(1)] i uid show ?thesis by simp
  qed
qed

text \<open>
  Claim C2. For every pools dictionary (distinct category codes as keys) and every
  positive limit, \<open>round_robin_select\<close> returns as many entries as the limit allows
  and the candidates have distinct dedup identities, whichever is smaller, and no two
  entries of the result share a dedup identity. The identity is the one the code
  computes: the EIN if present, else the profile URL if present, else the name joined
  to the category code the candidate is filed under. The result is stated twice: for
  the identities under the codes the entries were taken from (\<open>tagged\<close>), and,
  when every candidate is filed under its own \<open>nteeCode\<close> as
  \<^verbatim>\<open>group_charities_by_decile\<close> files it, for the identity read off the entry alone.
\<close>

theorem round_robin_select_length_distinct:
  assumes "distinct (map fst p)" and "0 < limit"
  shows "length (round_robin_select p limit) = min (nat limit) (card (set (pool_ids p))) \<and>
     (\<exists>ks. tagged p ks (round_robin_select p limit)) \<and>
     (filed_by_code p \<longrightarrow> distinct (map dedup_identity (round_robin_select p limit)))"
proof (intro conjI)
  let ?codes = "map fst (filter (\<lambda>(code, cs). cs \<noteq> []) p)"
  let ?s0 = "\<lparr>selected = [], seen_ids = {}, indices = map_of (map (\<lambda>code. (code, 0)) ?codes),
      progressed = False\<rparr>"
  let ?r = "rounds p limit ?codes ?s0"
  have sel: "round_robin_select p limit = (if ?codes = [] then [] else selected ?r)"
    by (simp add: round_robin_select_def Let_def)
  have start: "indices_get ?s0 code = 0" for code
    by (cases "map_of (map (\<lambda>code. (code, 0::nat)) ?codes) code")
      (auto simp: indices_get_def dest!: map_of_SomeD)
  have "rr_inv p ?s0"
    unfolding rr_inv_def using start by (auto simp: tagged_def)
  then have inv: "rr_inv p ?r" by (rule rounds_inv)
  then obtain ks where ks: "tagged p ks (selected ?r)"
      "seen_ids ?r = set (map2 unique_id ks (selected ?r))"
    unfolding rr_inv_def by blast
  from ks have d: "distinct (map2 unique_id ks (selected ?r))"
    and l: "length ks = length (selected ?r)"
    by (simp_all add: tagged_def)
  have "card (seen_ids ?r) = length (map2 unique_id ks (selected ?r))"
    unfolding ks(2) using d by (rule distinct_card)
  also have "\<dots> = length (selected ?r)"
    using l by simp
  finally have len: "length (selected ?r) = card (seen_ids ?r)" by simp
  have sub: "seen_ids ?r \<subseteq> set (pool_ids p)"
    using ks tagged_ids_subset by simp
  have bound: "int (length (selected ?r)) \<le> limit"
    using assms(2) by (intro rounds_bound) simp
  have full: "length (selected ?r) = min (nat limit) (card (set (pool_ids p)))"
  proof (cases "limit \<le> int (length (selected ?r))")
    case True
    with bound have "length (selected ?r) = nat limit" by simp
    moreover have "card (seen_ids ?r) \<le> card (set (pool_ids p))"
      using sub by (simp add: card_mono)
    ultimately show ?thesis using len by simp
  next
    case False
    with rounds_exit [of limit p ?codes ?s0] have "exhausted p ?codes ?r" by simp
    from exhausted_all_seen [OF assms(1) inv this] sub have "seen_ids ?r = set (pool_ids p)"
      by simp
    with len bound show ?thesis by simp
  qed
  have empty: "pool_ids p = []" if "?codes = []"
  proof -
    from that have "\<forall>(code, cs) \<in> set p. cs = []"
      by (auto simp: filter_empty_conv)
    then show ?thesis by (auto simp: pool_ids_def candidates_def)
  qed
  show "length (round_robin_select p limit) = min (nat limit) (card (set (pool_ids p)))"
    using full empty by (simp add: sel)
  have tags: "tagged p (if ?codes = [] then [] else ks) (round_robin_select p limit)"
    using ks by (simp add: sel tagged_def)
  then show "\<exists>ks. tagged p ks (round_robin_select p limit)" ..
  show "filed_by_code p \<longrightarrow> distinct (map dedup_identity (round_robin_select p limit))"
  proof
    assume "filed_by_code p"
    from tagged_filed [OF tags this] tags show "distinct (map dedup_identity (round_robin_select p limit))"
      by (simp add: tagged_def)
  qed
qed


definition filed :: "string \<Rightarrow> string \<Rightarrow> string option \<Rightarrow> charity" where
  "filed code n e =
     \<lparr>name = Some n, ein = e, profileUrl = None, websiteUrl = None,
      nteeCode = Some code, location = None, description = None\<rparr>"

definition sample_pools :: pools where
  "sample_pools =
     [(''A20'', [filed ''A20'' ''Arts One'' (Some ''11''), filed ''A20'' ''Arts Two'' None]),
      (''B20'', [filed ''B20'' ''Arts One'' (Some ''11''), filed ''B20'' ''Books'' (Some ''12'')])]"

theorem round_robin_select_length_distinct_witness:
  "distinct (map fst sample_pools) \<and> (0::int) < 5 \<and> filed_by_code sample_pools \<and>
   min (nat 5) (card (set (pool_ids sample_pools))) = 3 \<and>
   length (round_robin_select sample_pools 5) = 3 \<and>
   distinct (map dedup_identity (round_robin_select sample_pools 5))"
proof -
  have keys: "distinct (map fst sample_pools)"
    by (simp add: sample_pools_def)
  have f: "filed_by_code sample_pools"
    by (simp add: sample_pools_def filed_by_code_def filed_def)
  have ids: "pool_ids sample_pools = [''11'', ''Arts Two-A20'', ''11'', ''12'']"
    by (simp add: sample_pools_def pool_ids_def candidates_def unique_id_def filed_def truthy_def
        py_str_def)
  have n: "card (set (pool_ids sample_pools)) = 3"
    unfolding ids List.card_set by simp
  from round_robin_select_length_distinct [OF keys, of 5] keys f n show ?thesis
    by simp
qed



section \<open>Facts about the enrichment merge and the request checks\<close>

definition supplied_profile :: "detail \<Rightarrow> string option" where
  "supplied_profile d =
     py_or (py_or (detail_get d ''profileUrl'') (detail_get d ''profile'')) (detail_get d ''url'')"

definition supplied_website :: "detail \<Rightarrow> string option" where
  "supplied_website d = py_or (detail_get d ''websiteUrl'') (detail_get d ''website'')"

definition supplied_description :: "detail \<Rightarrow> string option" where
  "supplied_description d = py_or (detail_get d ''description'') (detail_get d ''mission'')"

definition supplied_location :: "detail \<Rightarrow> string option" where
  "supplied_location d = py_or (detail_get d ''location'') (detail_get d ''locationName'')"

definition supplied_ntee :: "detail \<Rightarrow> string option" where
  "supplied_ntee d = detail_get d ''nteeCode''"

definition merged :: "string option \<Rightarrow> string option \<Rightarrow> string option" where
  "merged new old = (if truthy new then new else old)"

lemma apply_detail_eq:
  "apply_detail d c =
     c\<lparr>profileUrl := merged (supplied_profile d) (profileUrl c),
       websiteUrl := merged (supplied_website d) (websiteUrl c),
       description := merged (supplied_description d) (description c),
       location := merged (supplied_location d) (location c),
       nteeCode := merged (supplied_ntee d) (nteeCode c)\<rparr>"
proof -
  have keep: "merged (py_or new old) old = merged new old" for new old
    by (simp add: merged_def py_or_def)
  have upd: "(if truthy new then r\<lparr>profileUrl := new\<rparr> else r) = r\<lparr>profileUrl := merged new (profileUrl r)\<rparr>"
    "(if truthy new then r\<lparr>websiteUrl := new\<rparr> else r) = r\<lparr>websiteUrl := merged new (websiteUrl r)\<rparr>"
    "(if truthy new then r\<lparr>description := new\<rparr> else r) = r\<lparr>description := merged new (description r)\<rparr>"
    "location r = old \<Longrightarrow>
       (if truthy (py_or new old) then r\<lparr>location := py_or new old\<rparr> else r)
         = r\<lparr>location := merged new old\<rparr>"
    "nteeCode r = old \<Longrightarrow>
       (if truthy (py_or new old) then r\<lparr>nteeCode := py_or new old\<rparr> else r)
         = r\<lparr>nteeCode := merged new old\<rparr>"
    for new old and r :: charity
    by (auto simp: merged_def py_or_def)
  show ?thesis
    unfolding apply_detail_def Let_def supplied_profile_def [symmetric]
      supplied_website_def [symmetric] supplied_description_def [symmetric]
      supplied_location_def [symmetric] supplied_ntee_def [symmetric]
    by (simp add: upd)
qed

lemma apply_detail_fields:
  "profileUrl (apply_detail d c) = merged (supplied_profile d) (profileUrl c)"
  "websiteUrl (apply_detail d c) = merged (supplied_website d) (websiteUrl c)"
  "description (apply_detail d c) = merged (supplied_description d) (description c)"
  "location (apply_detail d c) = merged (supplied_location d) (location c)"
  "nteeCode (apply_detail d c) = merged (supplied_ntee d) (nteeCode c)"
  "name (apply_detail d c) = name c"
  "ein (apply_detail d c) = ein c"
  by (simp_all add: apply_detail_eq)

text \<open>
  Claim C8. When a resolved detail is applied to a charity record, each of
  \<open>profileUrl\<close>, \<open>websiteUrl\<close>, \<open>description\<close>, \<open>location\<close> and \<open>nteeCode\<close>
  takes the value the detail supplies when that value is non-empty and keeps its own
  value otherwise (\<open>merged\<close>); \<open>name\<close> and \<open>ein\<close> are never touched; and a field that
  held a non-empty value holds one afterwards, so the merge never nulls or empties it.
\<close>

theorem apply_detail_frame:
  "profileUrl (apply_detail d c) = merged (supplied_profile d) (profileUrl c) \<and>
   websiteUrl (apply_detail d c) = merged (supplied_website d) (websiteUrl c) \<and>
   description (apply_detail d c) = merged (supplied_description d) (description c) \<and>
   location (apply_detail d c) = merged (supplied_location d) (location c) \<and>
   nteeCode (apply_detail d c) = merged (supplied_ntee d) (nteeCode c) \<and>
   name (apply_detail d c) = name c \<and> ein (apply_detail d c) = ein c \<and>
   (truthy (profileUrl c) \<longrightarrow> truthy (profileUrl (apply_detail d c))) \<and>
   (truthy (websiteUrl c) \<longrightarrow> truthy (websiteUrl (apply_detail d c))) \<and>
   (truthy (description c) \<longrightarrow> truthy (description (apply_detail d c))) \<and>
   (truthy (location c) \<longrightarrow> truthy (location (apply_detail d c))) \<and>
   (truthy (nteeCode c) \<longrightarrow> truthy (nteeCode (apply_detail d c)))"
  by (simp add: apply_detail_fields merged_def)


definition sample_charity :: charity where
  "sample_charity =
     \<lparr>name = Some ''Helping Hands'', ein = Some ''530196605'',
      profileUrl = Some ''https://www.every.org/helping-hands'',
      websiteUrl = Some ''https://old.example.org'', nteeCode = Some ''D20'',
      location = Some ''Austin, TX'', description = Some ''Old text''\<rparr>"

definition sample_detail :: detail where
  "sample_detail =
     [(''websiteUrl'', Some []), (''website'', Some ''https://new.example.org''),
      (''description'', None), (''mission'', Some ''Feeding people''),
      (''nteeCode'', Some ''K30'')]"

theorem apply_detail_frame_witness:
  "truthy (profileUrl sample_charity) \<and> truthy (websiteUrl sample_charity) \<and>
   truthy (description sample_charity) \<and> truthy (location sample_charity) \<and>
   truthy (nteeCode sample_charity) \<and>
   truthy (profileUrl (apply_detail sample_detail sample_charity)) \<and>
   truthy (websiteUrl (apply_detail sample_detail sample_charity)) \<and>
   truthy (description (apply_detail sample_detail sample_charity)) \<and>
   truthy (location (apply_detail sample_detail sample_charity)) \<and>
   truthy (nteeCode (apply_detail sample_detail sample_charity)) \<and>
   websiteUrl (apply_detail sample_detail sample_charity) = Some ''https://new.example.org'' \<and>
   location (apply_detail sample_detail sample_charity) = Some ''Austin, TX''"
proof -
  have given: "truthy (profileUrl sample_charity)" "truthy (websiteUrl sample_charity)"
    "truthy (description sample_charity)" "truthy (location sample_charity)"
    "truthy (nteeCode sample_charity)"
    by (simp_all add: sample_charity_def truthy_def)
  have w: "merged (supplied_website sample_detail) (websiteUrl sample_charity)
      = Some ''https://new.example.org''"
    by (simp add: merged_def supplied_website_def py_or_def detail_get_def sample_detail_def
        truthy_def)
  have l: "merged (supplied_location sample_detail) (location sample_charity) = Some ''Austin, TX''"
    by (simp add: merged_def supplied_location_def py_or_def detail_get_def sample_detail_def
        truthy_def sample_charity_def)
  note frame = apply_detail_frame [of sample_detail sample_charity]
  have kept: "truthy (profileUrl (apply_detail sample_detail sample_charity))"
    "truthy (websiteUrl (apply_detail sample_detail sample_charity))"
    "truthy (description (apply_detail sample_detail sample_charity))"
    "truthy (location (apply_detail sample_detail sample_charity))"
    "truthy (nteeCode (apply_detail sample_detail sample_charity))"
    using frame given by blast+
  have new: "websiteUrl (apply_detail sample_detail sample_charity) = Some ''https://new.example.org''"
    "location (apply_detail sample_detail sample_charity) = Some ''Austin, TX''"
    using frame w l by simp_all
  from given kept new show ?thesis
    by simp
qed

text \<open>
  Claim C9. A request whose interest code, trimmed and uppercased as the handler does
  before the lookup, is empty or is not a key of the mapping table is answered with the
  client error 400, and the world is left as it was: no connection is opened, no catalog
  query is logged, no request is sent to the enrichment service.
\<close>

theorem recommend_rejects_before_catalog:
  assumes "upper (strip (req_generic_code payload)) = [] \<or>
           map_of GENERIC_TO_NTEE (upper (strip (req_generic_code payload))) = None"
  shows "recommend_charities e w payload =
     (Inl (HTTPException 400
        (if upper (strip (req_generic_code payload)) = [] then ''generic_code is required.''
         else ''Unknown generic code: '' @ upper (strip (req_generic_code payload)))), w)"
proof (cases "upper (strip (req_generic_code payload)) = []")
  case True
  then show ?thesis by (simp add: recommend_charities_def Let_def)
next
  case False
  with assms have "map_of GENERIC_TO_NTEE (upper (strip (req_generic_code payload))) = None"
    by simp
  with False show ?thesis by (simp add: recommend_charities_def Let_def)
qed



definition offline :: env where
  "offline =
     \<lparr>db_exists = True, table = [], db_random = (\<lambda>q k n. n - 1), api_key_env = Some ''key'',
      every_org = (\<lambda>k ein. RequestException), randbelow = (\<lambda>seed k n. 0)\<rparr>"

definition startup :: world where
  "startup = \<lparr>connection = False, queries = [], every_cache = Map.empty, requests = []\<rparr>"

theorem recommend_rejects_before_catalog_witness:
  "upper (strip ''  '') = [] \<and> map_of GENERIC_TO_NTEE (upper (strip ''zz9'')) = None \<and>
   recommend_charities offline startup \<lparr>req_generic_code = ''  '', req_location = ''CA''\<rparr>
     = (Inl (HTTPException 400 ''generic_code is required.''), startup) \<and>
   recommend_charities offline startup \<lparr>req_generic_code = ''zz9'', req_location = ''CA''\<rparr>
     = (Inl (HTTPException 400 ''Unknown generic code: ZZ9''), startup)"
proof -
  have blank: "upper (strip ''  '') = []"
    by (simp add: string_defs)
  have code: "upper (strip ''zz9'') = ''ZZ9''"
    by (simp add: string_defs)
  have unknown: "map_of GENERIC_TO_NTEE ''ZZ9'' = None"
    by (simp add: GENERIC_TO_NTEE_def)
  from recommend_rejects_before_catalog [of "\<lparr>req_generic_code = ''  '', req_location = ''CA''\<rparr>" offline startup]
    recommend_rejects_before_catalog [of "\<lparr>req_generic_code = ''zz9'', req_location = ''CA''\<rparr>" offline startup]
    blank code unknown
  show ?thesis by simp
qed



section \<open>Facts about the enrichment cache and the catalog queries\<close>

lemma rows_to_charities_id: "rows_to_charities rows = rows"
  by (simp add: rows_to_charities_def map_idI)

text \<open>
  Claim C1. After \<open>fetch_every_nonprofit_detail\<close> has resolved an EIN to a negative
  result, a second call for the same EIN is meant to answer from the cache without a
  new network request. The code stores \<open>None\<close> under the EIN, but reads the cache with
  \<^verbatim>\<open>_EVERY_CACHE.get(ein)\<close> and tests \<^verbatim>\<open>is not None\<close>, which cannot tell the stored
  negative from a missing key: with the service unreachable, the second call sends a
  second request.
\<close>

theorem negative_result_is_fetched_again:
  "(case fetch_every_nonprofit_detail offline startup ''530196605'' of
      (r1, w1) \<Rightarrow>
        (case fetch_every_nonprofit_detail offline w1 ''530196605'' of
           (r2, w2) \<Rightarrow>
             r1 = Inr None \<and> every_cache w1 ''530196605'' = Some None \<and> requests w1 = [''530196605''] \<and>
             r2 = Inr None \<and> requests w2 = [''530196605'', ''530196605'']))"
  by (simp add: fetch_every_nonprofit_detail_def cache_get_def get_api_key_def truthy_def py_str_def
      cache_negative_def offline_def startup_def Let_def)

lemma cached_negative_is_not_used:
  assumes "k \<noteq> []" and "every_cache w k = Some None" and "truthy (api_key_env e)"
  shows "requests (snd (fetch_every_nonprofit_detail e w k)) = requests w @ [k]"
  using assms
  by (simp add: fetch_every_nonprofit_detail_def cache_get_def get_api_key_def cache_negative_def
      Let_def split: http_result.splits body.splits payload_json.splits data_json.splits
      nonprofit_json.splits)


lemma get_connection_ok:
  "connection w \<or> db_exists e \<Longrightarrow> get_connection e w = (Inr (), w\<lparr>connection := True\<rparr>)"
  by (auto simp: get_connection_def)

lemma execute_query_ok:
  "connection w \<or> db_exists e \<Longrightarrow>
     execute_query e w q =
       (Inr (select_rows e (w\<lparr>connection := True\<rparr>) q),
        w\<lparr>connection := True, queries := queries w @ [q]\<rparr>)"
  by (simp add: execute_query_def get_connection_ok)

lemma select_rows_connection [simp]:
  "select_rows e (w\<lparr>connection := b\<rparr>) q = select_rows e w q"
  by (simp add: select_rows_def)

text \<open>
  Claim C5. When \<open>fetch_by_deciles\<close> runs a region-filtered query (some category code
  is left after cleaning, the state normalizes to a region, the database can be opened)
  and that query returns no row, the same query is run again without the region filter
  and its rows are returned; when the region-filtered query returns rows, they are
  returned and the log of queries shows that the unfiltered query was not run.
\<close>

theorem fetch_by_deciles_region_fallback:
  assumes "normalize_deciles deciles \<noteq> []"
    and "catalog_normalize_state state = Some st"
    and "connection w \<or> db_exists e"
  shows "(let cleaned = normalize_deciles deciles;
              with_region = \<lparr>q_deciles = cleaned, q_state = Some st, q_limit = limit\<rparr>;
              without_region = \<lparr>q_deciles = cleaned, q_state = None, q_limit = limit\<rparr>;
              rows = select_rows e w with_region;
              w1 = w\<lparr>connection := True, queries := queries w @ [with_region]\<rparr>
          in fetch_by_deciles e w deciles state limit =
               (if rows \<noteq> [] then (Inr rows, w1)
                else (Inr (select_rows e w1 without_region),
                      w1\<lparr>queries := queries w @ [with_region, without_region]\<rparr>)))"
  using assms
  by (simp add: fetch_by_deciles_def Let_def execute_query_ok rows_to_charities_id select_rows_def)


definition catalog_row :: "string \<Rightarrow> string \<Rightarrow> string \<Rightarrow> string \<Rightarrow> string \<Rightarrow> CharityRow" where
  "catalog_row e n city st code =
     \<lparr>row_ein = Some e, row_name = Some n, row_city = Some city, row_state = Some st,
      row_ntee_code = Some code, row_ntee_major = Some (take 1 code)\<rparr>"

definition two_states :: env where
  "two_states =
     \<lparr>db_exists = True,
      table = [catalog_row ''741234567'' ''Austin Trees'' ''Austin'' ''TX'' ''D20'',
               catalog_row ''941234567'' ''Bay Birds'' ''Oakland'' ''CA'' ''D20''],
      db_random = (\<lambda>q k n. n - 1), api_key_env = Some ''key'',
      every_org = (\<lambda>k ein. RequestException), randbelow = (\<lambda>seed k n. 0)\<rparr>"

theorem fetch_by_deciles_region_fallback_witness:
  "normalize_deciles [''d20''] \<noteq> [] \<and>
   catalog_normalize_state (Some ''zz'') = Some ''ZZ'' \<and>
   catalog_normalize_state (Some ''tx'') = Some ''TX'' \<and>
   (connection startup \<or> db_exists two_states) \<and>
   fetch_by_deciles two_states startup [''d20''] (Some ''zz'') 10 =
     (Inr (table two_states),
      startup\<lparr>connection := True,
               queries := [\<lparr>q_deciles = [''D20''], q_state = Some ''ZZ'', q_limit = 10\<rparr>,
                           \<lparr>q_deciles = [''D20''], q_state = None, q_limit = 10\<rparr>]\<rparr>) \<and>
   fetch_by_deciles two_states startup [''d20''] (Some ''tx'') 10 =
     (Inr [catalog_row ''741234567'' ''Austin Trees'' ''Austin'' ''TX'' ''D20''],
      startup\<lparr>connection := True,
               queries := [\<lparr>q_deciles = [''D20''], q_state = Some ''TX'', q_limit = 10\<rparr>]\<rparr>)"
proof -
  have d: "normalize_deciles [''d20''] = [''D20'']"
    by (simp add: normalize_deciles_def string_defs)
  have zz: "catalog_normalize_state (Some ''zz'') = Some ''ZZ''"
    by (simp add: catalog_normalize_state_def string_defs)
  have tx: "catalog_normalize_state (Some ''tx'') = Some ''TX''"
    by (simp add: catalog_normalize_state_def string_defs)
  have db: "connection startup \<or> db_exists two_states"
    by (simp add: two_states_def)
  have nonempty: "normalize_deciles [''d20''] \<noteq> []"
    by (simp add: d)
  have in_zz: "select_rows two_states w \<lparr>q_deciles = [''D20''], q_state = Some ''ZZ'', q_limit = 10\<rparr> = []"
    for w
    by (simp add: select_rows_def order_by_random_def sql_limit_def matches_def two_states_def
        catalog_row_def Let_def)
  have in_tx: "select_rows two_states w \<lparr>q_deciles = [''D20''], q_state = Some ''TX'', q_limit = 10\<rparr>
      = [catalog_row ''741234567'' ''Austin Trees'' ''Austin'' ''TX'' ''D20'']" for w
    by (simp add: select_rows_def order_by_random_def sql_limit_def matches_def two_states_def
        catalog_row_def Let_def)
  have anywhere: "select_rows two_states w \<lparr>q_deciles = [''D20''], q_state = None, q_limit = 10\<rparr>
      = table two_states" for w
    by (simp add: select_rows_def order_by_random_def sql_limit_def matches_def two_states_def
        catalog_row_def Let_def)
  have q0: "queries startup = []"
    by (simp add: startup_def)
  from fetch_by_deciles_region_fallback [OF nonempty zz db, of 10]
  have first: "fetch_by_deciles two_states startup [''d20''] (Some ''zz'') 10 =
     (Inr (table two_states),
      startup\<lparr>connection := True,
               queries := [\<lparr>q_deciles = [''D20''], q_state = Some ''ZZ'', q_limit = 10\<rparr>,
                           \<lparr>q_deciles = [''D20''], q_state = None, q_limit = 10\<rparr>]\<rparr>)"
    by (simp add: Let_def d in_zz anywhere q0)
  from fetch_by_deciles_region_fallback [OF nonempty tx db, of 10]
  have second: "fetch_by_deciles two_states startup [''d20''] (Some ''tx'') 10 =
     (Inr [catalog_row ''741234567'' ''Austin Trees'' ''Austin'' ''TX'' ''D20''],
      startup\<lparr>connection := True,
               queries := [\<lparr>q_deciles = [''D20''], q_state = Some ''TX'', q_limit = 10\<rparr>]\<rparr>)"
    by (simp add: Let_def d in_tx q0)
  from nonempty zz tx db first second show ?thesis
    by simp
qed

lemma length_shuffle_from [simp]: "length (shuffle_from draw k i xs) = length xs"
  by (induction i arbitrary: k xs) (simp_all add: Let_def)

lemma mset_shuffle_from:
  "i < length xs \<Longrightarrow> mset (shuffle_from draw k i xs) = mset xs"
proof (induction i arbitrary: k xs)
  case 0
  show ?case by simp
next
  case (Suc i)
  let ?j = "draw k (Suc i + 1) mod (Suc i + 1)"
  have "?j < Suc i + 1" by (rule mod_less_divisor) simp
  with Suc.prems have j: "?j < length xs" by linarith
  have swap: "mset (xs[Suc i := xs ! ?j, ?j := xs ! Suc i]) = mset xs"
    using j Suc.prems by (rule mset_swap)
  have "mset (shuffle_from draw (k + 1) i (xs[Suc i := xs ! ?j, ?j := xs ! Suc i]))
      = mset (xs[Suc i := xs ! ?j, ?j := xs ! Suc i])"
    using Suc.prems by (intro Suc.IH) simp
  with swap show ?case by (simp add: Let_def)
qed

lemma mset_shuffle: "mset (shuffle e seed xs) = mset xs"
proof (cases xs)
  case Nil
  then show ?thesis by (simp add: shuffle_def)
next
  case (Cons x xs')
  then show ?thesis by (simp add: shuffle_def mset_shuffle_from del: mset.simps)
qed

lemma length_sql_limit: "0 \<le> n \<Longrightarrow> length (sql_limit n rows) \<le> nat n"
  by (simp add: sql_limit_def)

lemma fetch_by_deciles_length:
  assumes "fetch_by_deciles e w deciles state limit = (Inr rows, w')" and "0 \<le> limit"
  shows "length rows \<le> nat limit"
  using assms
  by (auto simp: fetch_by_deciles_def Let_def execute_query_def rows_to_charities_id select_rows_def
      length_sql_limit split: if_splits option.splits prod.splits sum.splits)

text \<open>
  Claim C6. For a positive pool size, \<open>fetch_random_pool_for_deciles\<close> with a seed
  returns the first \<open>pool_size\<close> rows of the seeded shuffle of the whole list fetched
  with the limit \<open>max (pool_size * 3) pool_size\<close>, the shuffle being a rearrangement
  of that whole list; without a seed it returns the first \<open>pool_size\<close> rows in the
  fetched order. The fetched list has at most \<open>max (pool_size * 3) pool_size\<close> rows.
\<close>

theorem fetch_random_pool_shuffles_before_truncating:
  assumes "0 < pool_size"
    and "fetch_by_deciles e w deciles state (max (pool_size * 3) pool_size) = (Inr fetched, w')"
  shows "fetch_random_pool_for_deciles e w deciles state pool_size (Some seed) =
           (Inr (take (nat pool_size) (shuffle e seed fetched)), w') \<and>
         fetch_random_pool_for_deciles e w deciles state pool_size None =
           (Inr (take (nat pool_size) fetched), w') \<and>
         mset (shuffle e seed fetched) = mset fetched \<and>
         length fetched \<le> nat (max (pool_size * 3) pool_size)"
proof -
  from assms(1) have "0 \<le> max (pool_size * 3) pool_size" by simp
  from fetch_by_deciles_length [OF assms(2) this]
  have "length fetched \<le> nat (max (pool_size * 3) pool_size)" .
  with assms show ?thesis
    by (simp add: fetch_random_pool_for_deciles_def Let_def mset_shuffle)
qed


theorem fetch_random_pool_shuffles_before_truncating_witness:
  "(0::int) < 1 \<and>
   fetch_by_deciles two_states startup [''D20''] None (max (1 * 3) 1) =
     (Inr (table two_states),
      startup\<lparr>connection := True,
               queries := [\<lparr>q_deciles = [''D20''], q_state = None, q_limit = 3\<rparr>]\<rparr>) \<and>
   fetch_random_pool_for_deciles two_states startup [''D20''] None 1 (Some 20240101) =
     (Inr [catalog_row ''941234567'' ''Bay Birds'' ''Oakland'' ''CA'' ''D20''],
      startup\<lparr>connection := True,
               queries := [\<lparr>q_deciles = [''D20''], q_state = None, q_limit = 3\<rparr>]\<rparr>) \<and>
   fetch_random_pool_for_deciles two_states startup [''D20''] None 1 None =
     (Inr [catalog_row ''741234567'' ''Austin Trees'' ''Austin'' ''TX'' ''D20''],
      startup\<lparr>connection := True,
               queries := [\<lparr>q_deciles = [''D20''], q_state = None, q_limit = 3\<rparr>]\<rparr>)"
proof -
  have d: "normalize_deciles [''D20''] = [''D20'']"
    by (simp add: normalize_deciles_def string_defs)
  have rows: "select_rows two_states w \<lparr>q_deciles = [''D20''], q_state = None, q_limit = 3\<rparr>
      = table two_states" for w
    by (simp add: select_rows_def order_by_random_def sql_limit_def matches_def two_states_def
        catalog_row_def Let_def)
  have fetched: "fetch_by_deciles two_states startup [''D20''] None (max (1 * 3) 1) =
     (Inr (table two_states),
      startup\<lparr>connection := True,
               queries := [\<lparr>q_deciles = [''D20''], q_state = None, q_limit = 3\<rparr>]\<rparr>)"
    by (simp add: fetch_by_deciles_def Let_def d catalog_normalize_state_def execute_query_def
        get_connection_def rows rows_to_charities_id)
      (simp add: startup_def two_states_def)
  have shuffled: "take 1 (shuffle two_states 20240101 (table two_states))
      = [catalog_row ''941234567'' ''Bay Birds'' ''Oakland'' ''CA'' ''D20'']"
    by (simp add: shuffle_def two_states_def Let_def)
  have plain: "take 1 (table two_states)
      = [catalog_row ''741234567'' ''Austin Trees'' ''Austin'' ''TX'' ''D20'']"
    by (simp add: two_states_def)
  from fetch_random_pool_shuffles_before_truncating [OF _ fetched, of 20240101] fetched shuffled plain
  show ?thesis by simp
qed



section \<open>The category codes of a recommendation\<close>

lemma round_robin_select_tagged: "\<exists>ks. tagged p ks (round_robin_select p limit)"
proof -
  let ?codes = "map fst (filter (\<lambda>(code, cs). cs \<noteq> []) p)"
  let ?s0 = "\<lparr>selected = [], seen_ids = {}, indices = map_of (map (\<lambda>code. (code, 0)) ?codes),
      progressed = False\<rparr>"
  have start: "indices_get ?s0 code = 0" for code
    by (cases "map_of (map (\<lambda>code. (code, 0::nat)) ?codes) code")
      (auto simp: indices_get_def dest!: map_of_SomeD)
  have "rr_inv p ?s0"
    unfolding rr_inv_def using start by (auto simp: tagged_def)
  then have "rr_inv p (rounds p limit ?codes ?s0)" by (rule rounds_inv)
  then obtain ks where "tagged p ks (selected (rounds p limit ?codes ?s0))"
    unfolding rr_inv_def by blast
  moreover have "tagged p [] []" by (simp add: tagged_def)
  ultimately show ?thesis
    by (auto simp: round_robin_select_def Let_def)
qed

lemma round_robin_select_candidates:
  assumes "c \<in> set (round_robin_select p limit)"
  shows "\<exists>code. (code, c) \<in> set (candidates p)"
proof -
  from round_robin_select_tagged obtain ks where ks: "tagged p ks (round_robin_select p limit)" ..
  then have len: "length ks = length (round_robin_select p limit)"
    and sub: "set (zip ks (round_robin_select p limit)) \<subseteq> set (candidates p)"
    by (simp_all add: tagged_def)
  from assms obtain i where i: "i < length (round_robin_select p limit)"
      "c = round_robin_select p limit ! i"
    by (auto simp: in_set_conv_nth)
  with len have "(ks ! i, c) \<in> set (zip ks (round_robin_select p limit))"
    by (auto simp: in_set_zip)
  with sub show ?thesis by blast
qed

lemma set_order_by_random: "set (order_by_random e k rows) = set rows"
proof (cases rows)
  case Nil
  then show ?thesis by (simp add: order_by_random_def)
next
  case (Cons r rs)
  then have "mset (order_by_random e k rows) = mset rows"
    by (simp add: order_by_random_def mset_shuffle_from del: mset.simps)
  then show ?thesis by (rule mset_eq_setD)
qed

lemma select_rows_matches:
  assumes "row \<in> set (select_rows e w q)"
  shows "matches q row"
proof -
  have "set (select_rows e w q) \<subseteq> set (order_by_random e (length (queries w)) (filter (matches q) (table e)))"
    by (auto simp: select_rows_def sql_limit_def dest: in_set_takeD)
  with assms show ?thesis by (auto simp: set_order_by_random)
qed

lemma matches_code:
  "matches q row \<Longrightarrow> \<exists>code. row_ntee_code row = Some code \<and> code \<in> set (q_deciles q)"
  by (auto simp: matches_def split: option.splits)

lemma execute_query_rows:
  "execute_query e w q = (Inr rows, w') \<Longrightarrow> row \<in> set rows \<Longrightarrow> matches q row"
  by (auto simp: execute_query_def select_rows_matches split: prod.splits sum.splits)

lemma fetch_by_deciles_cases:
  assumes "fetch_by_deciles e w deciles state limit = (Inr rows, w')"
  shows "rows = [] \<or>
     (\<exists>q w0. q_deciles q = normalize_deciles deciles \<and> execute_query e w0 q = (Inr rows, w'))"
proof (cases "normalize_deciles deciles = []")
  case True
  with assms show ?thesis by (simp add: fetch_by_deciles_def)
next
  case cleaned: False
  let ?q = "\<lparr>q_deciles = normalize_deciles deciles, q_state = None, q_limit = limit\<rparr>"
  have tail: ?thesis
    if "(case execute_query e w0 ?q of (Inl err, w1) \<Rightarrow> (Inl err, w1)
         | (Inr rs, w1) \<Rightarrow> (Inr (rows_to_charities rs), w1)) = (Inr rows, w')" for w0
  proof -
    obtain r w1 where ex: "execute_query e w0 ?q = (r, w1)" by (cases "execute_query e w0 ?q")
    with that obtain rs where "r = Inr rs" "rs = rows" "w1 = w'"
      by (cases r) (auto simp: rows_to_charities_id)
    with ex have "execute_query e w0 ?q = (Inr rows, w')" by simp
    then show ?thesis by (intro disjI2 exI [of _ ?q] exI [of _ w0]) simp
  qed
  show ?thesis
  proof (cases "catalog_normalize_state state")
    case None
    with assms cleaned show ?thesis
      by (intro tail [of w]) (simp add: fetch_by_deciles_def Let_def)
  next
    case (Some st)
    let ?qs = "\<lparr>q_deciles = normalize_deciles deciles, q_state = Some st, q_limit = limit\<rparr>"
    obtain r w1 where ex: "execute_query e w ?qs = (r, w1)" by (cases "execute_query e w ?qs")
    show ?thesis
    proof (cases r)
      case (Inl err)
      with assms cleaned Some ex show ?thesis
        by (simp add: fetch_by_deciles_def Let_def)
    next
      case (Inr rs)
      show ?thesis
      proof (cases "rs = []")
        case True
        with assms cleaned Some ex Inr show ?thesis
          by (intro tail [of w1]) (simp add: fetch_by_deciles_def Let_def)
      next
        case False
        with assms cleaned Some ex Inr have "rs = rows" "w1 = w'"
          by (simp_all add: fetch_by_deciles_def Let_def rows_to_charities_id)
        with ex Inr have "execute_query e w ?qs = (Inr rows, w')" by simp
        then show ?thesis by (intro disjI2 exI [of _ ?qs] exI [of _ w]) simp
      qed
    qed
  qed
qed

lemma fetch_by_deciles_codes:
  assumes "fetch_by_deciles e w deciles state limit = (Inr rows, w')" and "row \<in> set rows"
  shows "\<exists>code. row_ntee_code row = Some code \<and> code \<in> set (normalize_deciles deciles)"
proof -
  from fetch_by_deciles_cases [OF assms(1)] assms(2)
  obtain q w0 where q: "q_deciles q = normalize_deciles deciles"
      "execute_query e w0 q = (Inr rows, w')"
    by auto
  from execute_query_rows [OF q(2) assms(2)] have "matches q row" .
  from matches_code [OF this] q(1) show ?thesis by simp
qed

lemma fetch_random_pool_codes:
  assumes "fetch_random_pool_for_deciles e w deciles state pool_size None = (Inr rows, w')"
    and "row \<in> set rows"
  shows "\<exists>code. row_ntee_code row = Some code \<and> code \<in> set (normalize_deciles deciles)"
proof (cases "pool_size \<le> 0")
  case True
  with assms show ?thesis by (simp add: fetch_random_pool_for_deciles_def)
next
  case False
  obtain r w1 where f: "fetch_by_deciles e w deciles state (max (pool_size * 3) pool_size) = (r, w1)"
    by (cases "fetch_by_deciles e w deciles state (max (pool_size * 3) pool_size)")
  with assms(1) False obtain fetched where r: "r = Inr fetched" "rows = take (nat pool_size) fetched"
    by (cases r) (auto simp: fetch_random_pool_for_deciles_def Let_def)
  with assms(2) have "row \<in> set fetched" by (auto dest: in_set_takeD)
  with f r fetch_by_deciles_codes show ?thesis by blast
qed


lemma table_is_clean: "list_all (\<lambda>(code, deciles). normalize_deciles deciles = deciles) GENERIC_TO_NTEE"
  by code_simp

lemma table_deciles_clean:
  assumes "map_of GENERIC_TO_NTEE code = Some deciles"
  shows "normalize_deciles deciles = deciles"
proof -
  from assms have "(code, deciles) \<in> set GENERIC_TO_NTEE" by (rule map_of_SomeD)
  with table_is_clean show ?thesis by (auto simp: list_all_iff)
qed

lemma setdefault_append_candidates:
  "set (candidates (setdefault_append grouped decile c)) = insert (decile, c) (set (candidates grouped))"
  by (induction grouped decile c rule: setdefault_append.induct) (auto simp: candidates_def)

lemma group_from_candidates:
  assumes "(code, c) \<in> set (candidates (group_charities_by_decile_from grouped rows))"
  shows "(code, c) \<in> set (candidates grouped) \<or>
     (\<exists>row \<in> set rows. row_ntee_code row = Some code \<and> c = normalized row code)"
  using assms
proof (induction rows arbitrary: grouped)
  case Nil
  then show ?case by simp
next
  case (Cons row rows)
  show ?case
  proof (cases "truthy (row_ntee_code row)")
    case False
    with Cons.prems have "(code, c) \<in> set (candidates (group_charities_by_decile_from grouped rows))"
      by simp
    from Cons.IH [OF this] show ?thesis by auto
  next
    case True
    then obtain decile where decile: "row_ntee_code row = Some decile"
      by (cases "row_ntee_code row") (auto simp: truthy_def)
    with True Cons.prems have "(code, c) \<in> set (candidates (group_charities_by_decile_from
        (setdefault_append grouped decile (normalized row decile)) rows))"
      by (simp add: Let_def py_str_def)
    from Cons.IH [OF this] decile show ?thesis
      by (auto simp: setdefault_append_candidates)
  qed
qed

lemma group_candidates:
  assumes "(code, c) \<in> set (candidates (group_charities_by_decile rows))"
  shows "\<exists>row \<in> set rows. row_ntee_code row = Some code \<and> c = normalized row code"
  using group_from_candidates [of code c "[]" rows] assms
  by (simp add: group_charities_by_decile_def candidates_def)

definition cache_grows :: "world \<Rightarrow> world \<Rightarrow> bool" where
  "cache_grows w w' \<longleftrightarrow>
     (\<forall>k d. every_cache w k = Some (Some d) \<longrightarrow> every_cache w' k = Some (Some d))"

lemma cache_grows_refl: "cache_grows w w"
  by (simp add: cache_grows_def)

lemma cache_grows_trans: "cache_grows w w1 \<Longrightarrow> cache_grows w1 w2 \<Longrightarrow> cache_grows w w2"
  by (simp add: cache_grows_def)

lemma cache_get_Some: "cache_get w k = Some d \<longleftrightarrow> every_cache w k = Some (Some d)"
  by (auto simp: cache_get_def split: option.splits)

lemma fetch_detail_cache:
  assumes "fetch_every_nonprofit_detail e w k = (r, w')"
  shows "cache_grows w w' \<and> (\<forall>d. r = Inr (Some d) \<longrightarrow> every_cache w' k = Some (Some d))"
proof (cases "k = []")
  case True
  with assms show ?thesis by (auto simp: fetch_every_nonprofit_detail_def cache_grows_refl)
next
  case nonempty: False
  show ?thesis
  proof (cases "cache_get w k")
    case (Some cached)
    with assms nonempty show ?thesis
      by (auto simp: fetch_every_nonprofit_detail_def cache_grows_refl cache_get_Some)
  next
    case None
    then have miss: "every_cache w k = None \<or> every_cache w k = Some None"
      by (auto simp: cache_get_def split: option.splits)
    from assms nonempty None show ?thesis
      using miss
      by (auto simp: fetch_every_nonprofit_detail_def Let_def cache_grows_def cache_negative_def
          split: sum.splits http_result.splits body.splits payload_json.splits data_json.splits
            nonprofit_json.splits if_splits)
  qed
qed


definition enriched_from :: "world \<Rightarrow> charity \<Rightarrow> charity \<Rightarrow> bool" where
  "enriched_from w' c c' \<longleftrightarrow>
     c' = c \<or> (\<exists>d. every_cache w' (py_str (ein c)) = Some (Some d) \<and> c' = apply_detail d c)"

lemma enriched_from_grows:
  "cache_grows w1 w2 \<Longrightarrow> enriched_from w1 c c' \<Longrightarrow> enriched_from w2 c c'"
  by (auto simp: enriched_from_def cache_grows_def)

lemma enrich_entries:
  "enrich_charities_with_every e w cs = (Inr cs', w') \<Longrightarrow>
     cache_grows w w' \<and> list_all2 (enriched_from w') cs cs'"
proof (induction cs arbitrary: w cs' w')
  case Nil
  then show ?case by (simp add: cache_grows_refl)
next
  case (Cons c cs)
  show ?case
  proof (cases "truthy (ein c)")
    case False
    obtain r w2 where rest: "enrich_charities_with_every e w cs = (r, w2)"
      by (cases "enrich_charities_with_every e w cs")
    with Cons.prems False obtain rs where r: "r = Inr rs" "cs' = c # rs" "w2 = w'"
      by (cases r) auto
    with rest Cons.IH [of w rs w'] show ?thesis
      by (simp add: enriched_from_def)
  next
    case True
    obtain r1 w1 where f: "fetch_every_nonprofit_detail e w (py_str (ein c)) = (r1, w1)"
      by (cases "fetch_every_nonprofit_detail e w (py_str (ein c))")
    with Cons.prems True obtain found where r1: "r1 = Inr found"
      by (cases r1) auto
    obtain r w2 where rest: "enrich_charities_with_every e w1 cs = (r, w2)"
      by (cases "enrich_charities_with_every e w1 cs")
    let ?c' = "case found of None \<Rightarrow> c | Some d \<Rightarrow> if d = [] then c else apply_detail d c"
    from Cons.prems True f r1 rest obtain rs where r: "r = Inr rs" "cs' = ?c' # rs" "w2 = w'"
      by (cases r) (auto simp: Let_def)
    from fetch_detail_cache [OF f] r1
    have g1: "cache_grows w w1"
      and hit: "\<And>d. found = Some d \<Longrightarrow> every_cache w1 (py_str (ein c)) = Some (Some d)"
      by auto
    from Cons.IH [of w1 rs w'] rest r
    have g2: "cache_grows w1 w'" and tail: "list_all2 (enriched_from w') cs rs"
      by auto
    have "enriched_from w1 c ?c'"
      using hit by (auto simp: enriched_from_def split: option.splits)
    with g2 have "enriched_from w' c ?c'" by (rule enriched_from_grows)
    with tail g1 g2 r show ?thesis
      by (auto intro: cache_grows_trans)
  qed
qed

lemma enrich_member:
  assumes "enrich_charities_with_every e w cs = (Inr cs', w')" and "c' \<in> set cs'"
  shows "\<exists>c \<in> set cs. enriched_from w' c c'"
proof -
  from enrich_entries [OF assms(1)] have rel: "list_all2 (enriched_from w') cs cs'" by simp
  from assms(2) obtain i where i: "i < length cs'" "c' = cs' ! i"
    by (auto simp: in_set_conv_nth)
  with rel have "enriched_from w' (cs ! i) c'" "i < length cs"
    by (auto simp: list_all2_conv_all_nth)
  then show ?thesis by auto
qed


lemma recommend_stages:
  assumes "recommend_charities e w payload = (Inr resp, w')"
  obtains target st pool w1 where
    "map_of GENERIC_TO_NTEE (upper (strip (req_generic_code payload))) = Some target"
    "fetch_random_pool_for_deciles e w target st (MAX_CHARITIES * 4) None = (Inr pool, w1)"
    "enrich_charities_with_every e w1
       (round_robin_select (group_charities_by_decile pool) MAX_CHARITIES)
       = (Inr (resp_charities resp), w')"
    "resp_ntee_codes resp = target"
proof -
  let ?code = "upper (strip (req_generic_code payload))"
  let ?st = "if normalize_state (strip (req_location payload)) = ''any'' then None
    else Some (normalize_state (strip (req_location payload)))"
  from assms have code: "?code \<noteq> []"
    by (auto simp: recommend_charities_def Let_def)
  with assms obtain target where target: "map_of GENERIC_TO_NTEE ?code = Some target" "target \<noteq> []"
    by (cases "map_of GENERIC_TO_NTEE ?code") (auto simp: recommend_charities_def Let_def split: if_splits)
  obtain r w1 where f: "fetch_random_pool_for_deciles e w target ?st (MAX_CHARITIES * 4) None = (r, w1)"
    by (cases "fetch_random_pool_for_deciles e w target ?st (MAX_CHARITIES * 4) None")
  with assms code target obtain pool where pool: "r = Inr pool" "pool \<noteq> []"
    by (cases r) (auto simp: recommend_charities_def Let_def split: if_splits)
  let ?sel = "round_robin_select (group_charities_by_decile pool) MAX_CHARITIES"
  obtain r2 w2 where en: "enrich_charities_with_every e w1 ?sel = (r2, w2)"
    by (cases "enrich_charities_with_every e w1 ?sel")
  with assms code target f pool obtain enriched where
      "r2 = Inr enriched" "w2 = w'" "resp_charities resp = enriched" "resp_ntee_codes resp = target"
    by (cases r2) (auto simp: recommend_charities_def Let_def split: if_splits)
  with target f pool en show ?thesis
    by (intro that [of target ?st pool w1]) simp_all
qed

text \<open>
  Claim C7, as amended. In every successful answer of the recommend operation the list
  \<open>ntee_codes\<close> is the list the table maps the interest code to, and every returned
  charity either carries a category code of that list or was enriched with a cached
  detail for its EIN whose \<open>nteeCode\<close> is non-empty, in which case it carries the
  detail's code: before enrichment every selected entry is filed under a mapped code,
  and the merge overwrites \<open>nteeCode\<close> whenever the detail supplies one.
\<close>

theorem recommend_category_codes:
  assumes "recommend_charities e w payload = (Inr resp, w')"
    and "c \<in> set (resp_charities resp)"
  shows "map_of GENERIC_TO_NTEE (upper (strip (req_generic_code payload))) = Some (resp_ntee_codes resp) \<and>
     ((\<exists>code \<in> set (resp_ntee_codes resp). nteeCode c = Some code) \<or>
      (\<exists>d. every_cache w' (py_str (ein c)) = Some (Some d) \<and>
           truthy (detail_get d ''nteeCode'') \<and> nteeCode c = detail_get d ''nteeCode''))"
proof -
  from recommend_stages [OF assms(1)] obtain target st pool w1 where
    target: "map_of GENERIC_TO_NTEE (upper (strip (req_generic_code payload))) = Some target"
    and pool: "fetch_random_pool_for_deciles e w target st (MAX_CHARITIES * 4) None = (Inr pool, w1)"
    and en: "enrich_charities_with_every e w1
       (round_robin_select (group_charities_by_decile pool) MAX_CHARITIES)
       = (Inr (resp_charities resp), w')"
    and codes: "resp_ntee_codes resp = target"
    by blast
  from enrich_member [OF en assms(2)] obtain c0 where
    c0: "c0 \<in> set (round_robin_select (group_charities_by_decile pool) MAX_CHARITIES)"
    and rel: "enriched_from w' c0 c"
    by blast
  from round_robin_select_candidates [OF c0] obtain code where
    "(code, c0) \<in> set (candidates (group_charities_by_decile pool))" ..
  from group_candidates [OF this] obtain row where
    row: "row \<in> set pool" "row_ntee_code row = Some code" "c0 = normalized row code"
    by blast
  from fetch_random_pool_codes [OF pool row(1)] row(2)
  have "code \<in> set (normalize_deciles target)" by simp
  with table_deciles_clean [OF target] have member: "code \<in> set target" by simp
  have before: "nteeCode c0 = Some code"
    using row(3) by (simp add: normalized_def)
  from rel show ?thesis
    unfolding enriched_from_def
  proof
    assume "c = c0"
    with before member target codes show ?thesis by auto
  next
    assume "\<exists>d. every_cache w' (py_str (ein c0)) = Some (Some d) \<and> c = apply_detail d c0"
    then obtain d where d: "every_cache w' (py_str (ein c0)) = Some (Some d)" "c = apply_detail d c0"
      by blast
    then have same_ein: "ein c = ein c0" and code': "nteeCode c = merged (supplied_ntee d) (nteeCode c0)"
      by (simp_all add: apply_detail_fields)
    show ?thesis
    proof (cases "truthy (detail_get d ''nteeCode'')")
      case True
      with d(1) same_ein code' target codes show ?thesis
        by (auto simp: merged_def supplied_ntee_def)
    next
      case False
      with code' before member target codes show ?thesis
        by (auto simp: merged_def supplied_ntee_def)
    qed
  qed
qed


definition relabelling :: env where
  "relabelling =
     \<lparr>db_exists = True,
      table = [catalog_row ''530196605'' ''Tree Friends'' ''Fresno'' ''CA'' ''D20'',
               (catalog_row [] ''River Watch'' ''Chico'' ''CA'' ''D40'')\<lparr>row_ein := None\<rparr>],
      db_random = (\<lambda>q k n. n - 1),
      api_key_env = Some ''key'',
      every_org = (\<lambda>k ein. Response 200 (Json (PayloadDict (DataDict (NonprofitDict
        [(''nteeCode'', Some ''C30''),
         (''websiteUrl'', Some ''https://treefriends.example.org'')]))))),
      randbelow = (\<lambda>seed k n. 0)\<rparr>"

definition tree_friends :: charity where
  "tree_friends =
     \<lparr>name = Some ''Tree Friends'', ein = Some ''530196605'', profileUrl = None,
      websiteUrl = None, nteeCode = Some ''D20'', location = Some ''Fresno, CA'',
      description = None\<rparr>"

definition river_watch :: charity where
  "river_watch =
     \<lparr>name = Some ''River Watch'', ein = None, profileUrl = None,
      websiteUrl = None, nteeCode = Some ''D40'', location = Some ''Chico, CA'',
      description = None\<rparr>"

definition d0_request :: SurveyRequest where
  "d0_request = \<lparr>req_generic_code = ''D0'', req_location = ''CA''\<rparr>"

lemma d0_codes: "map_of GENERIC_TO_NTEE ''D0'' = Some [''D20'', ''D40'', ''D60'', ''D61'']"
  by (simp add: GENERIC_TO_NTEE_def)

lemma d0_pool:
  "fetch_random_pool_for_deciles relabelling startup [''D20'', ''D40'', ''D60'', ''D61''] (Some ''CA'')
     60 None =
   (Inr (table relabelling),
    startup\<lparr>connection := True,
             queries := [\<lparr>q_deciles = [''D20'', ''D40'', ''D60'', ''D61''],
                          q_state = Some ''CA'', q_limit = 180\<rparr>]\<rparr>)"
proof -
  have d: "normalize_deciles [''D20'', ''D40'', ''D60'', ''D61''] = [''D20'', ''D40'', ''D60'', ''D61'']"
    by (simp add: normalize_deciles_def string_defs)
  have st: "catalog_normalize_state (Some ''CA'') = Some ''CA''"
    by (simp add: catalog_normalize_state_def string_defs)
  have rows: "select_rows relabelling w
      \<lparr>q_deciles = [''D20'', ''D40'', ''D60'', ''D61''], q_state = Some ''CA'', q_limit = 180\<rparr>
      = table relabelling" for w
    by (simp add: select_rows_def order_by_random_def sql_limit_def matches_def relabelling_def
        catalog_row_def Let_def)
  have nonempty: "table relabelling \<noteq> []"
    by (simp add: relabelling_def)
  have db: "connection startup \<or> db_exists relabelling"
    by (simp add: relabelling_def)
  have q0: "queries startup = []"
    by (simp add: startup_def)
  have "fetch_by_deciles relabelling startup [''D20'', ''D40'', ''D60'', ''D61''] (Some ''CA'') 180 =
     (Inr (table relabelling),
      startup\<lparr>connection := True,
               queries := [\<lparr>q_deciles = [''D20'', ''D40'', ''D60'', ''D61''],
                            q_state = Some ''CA'', q_limit = 180\<rparr>]\<rparr>)"
    using nonempty
    by (simp add: fetch_by_deciles_def Let_def d st execute_query_ok [OF db] rows
        rows_to_charities_id q0)
  moreover have "take 60 (table relabelling) = table relabelling"
    by (simp add: relabelling_def)
  ultimately show ?thesis
    by (simp add: fetch_random_pool_for_deciles_def Let_def)
qed

lemma d0_grouped:
  "group_charities_by_decile (table relabelling)
     = [(''D20'', [tree_friends]), (''D40'', [river_watch])]"
  by (simp add: group_charities_by_decile_def relabelling_def catalog_row_def truthy_def py_str_def
      Let_def normalized_def location_str_def tree_friends_def river_watch_def)

lemma d0_selected:
  "round_robin_select [(''D20'', [tree_friends]), (''D40'', [river_watch])] MAX_CHARITIES
     = [tree_friends, river_watch]"
proof -
  have ids: "unique_id ''D20'' tree_friends = ''530196605''"
    "unique_id ''D40'' river_watch = ''River Watch-D40''"
    by (simp_all add: unique_id_def truthy_def py_str_def tree_friends_def river_watch_def)
  show ?thesis
    apply (simp add: round_robin_select_def Let_def MAX_CHARITIES_def)
    apply (subst rounds.simps)
    apply (simp add: Let_def turn_def pools_get_def indices_get_def scan_hit ids)
    apply (subst rounds.simps)
    apply (simp add: Let_def turn_def pools_get_def indices_get_def scan_end)
    done
qed

lemma d0_enriched:
  "fst (enrich_charities_with_every relabelling w0 [tree_friends, river_watch]) =
     Inr [tree_friends\<lparr>websiteUrl := Some ''https://treefriends.example.org'',
                       nteeCode := Some ''C30''\<rparr>, river_watch]"
  if "every_cache w0 = Map.empty" for w0
  using that
  by (simp add: fetch_every_nonprofit_detail_def cache_get_def get_api_key_def truthy_def py_str_def
      relabelling_def Let_def tree_friends_def river_watch_def apply_detail_def py_or_def
      detail_get_def)

lemma d0_response:
  "fst (recommend_charities relabelling startup d0_request) =
     Inr \<lparr>resp_generic_code = ''D0'', resp_location = ''CA'',
          resp_ntee_codes = [''D20'', ''D40'', ''D60'', ''D61''],
          resp_charities =
            [tree_friends\<lparr>websiteUrl := Some ''https://treefriends.example.org'',
                          nteeCode := Some ''C30''\<rparr>, river_watch]\<rparr>"
proof -
  have code: "upper (strip ''D0'') = ''D0''"
    by (simp add: string_defs)
  have loc: "strip ''CA'' = ''CA''" "normalize_state ''CA'' = ''CA''"
    by (simp_all add: normalize_state_def string_defs)
  have size: "MAX_CHARITIES * 4 = 60"
    by (simp add: MAX_CHARITIES_def)
  have nonempty: "table relabelling \<noteq> []"
    by (simp add: relabelling_def)
  let ?w1 = "startup\<lparr>connection := True,
             queries := [\<lparr>q_deciles = [''D20'', ''D40'', ''D60'', ''D61''],
                          q_state = Some ''CA'', q_limit = 180\<rparr>]\<rparr>"
  have "every_cache ?w1 = Map.empty"
    by (simp add: startup_def)
  from d0_enriched [OF this] obtain w2 where
    "enrich_charities_with_every relabelling ?w1 [tree_friends, river_watch] =
      (Inr [tree_friends\<lparr>websiteUrl := Some ''https://treefriends.example.org'',
                       nteeCode := Some ''C30''\<rparr>, river_watch], w2)"
    by (cases "enrich_charities_with_every relabelling ?w1 [tree_friends, river_watch]") simp
  then show ?thesis
    using nonempty
    by (simp add: recommend_charities_def d0_request_def Let_def code loc size d0_codes d0_pool
        d0_grouped d0_selected)
qed

text \<open>
  The claim as the specification states it, that every returned category code belongs
  to the mapped set also after enrichment, fails: for the interest code \<open>D0\<close> and a
  catalog row filed under \<open>D20\<close>, a detail whose \<open>nteeCode\<close> is \<open>C30\<close> makes the
  answer carry \<open>C30\<close>, which \<open>D0\<close> does not map to.
\<close>

theorem enrichment_relabels_category_counterexample:
  "fst (recommend_charities relabelling startup \<lparr>req_generic_code = ''D0'', req_location = ''CA''\<rparr>) =
     Inr \<lparr>resp_generic_code = ''D0'', resp_location = ''CA'',
          resp_ntee_codes = [''D20'', ''D40'', ''D60'', ''D61''],
          resp_charities =
            [\<lparr>name = Some ''Tree Friends'', ein = Some ''530196605'', profileUrl = None,
              websiteUrl = Some ''https://treefriends.example.org'', nteeCode = Some ''C30'',
              location = Some ''Fresno, CA'', description = None\<rparr>,
             \<lparr>name = Some ''River Watch'', ein = None, profileUrl = None,
              websiteUrl = None, nteeCode = Some ''D40'', location = Some ''Chico, CA'',
              description = None\<rparr>]\<rparr> \<and>
   map_of GENERIC_TO_NTEE ''D0'' = Some [''D20'', ''D40'', ''D60'', ''D61''] \<and>
   ''C30'' \<notin> set [''D20'', ''D40'', ''D60'', ''D61'']"
  using d0_response d0_codes
  by (simp add: d0_request_def tree_friends_def river_watch_def)


definition d0_answer :: CharityResponse where
  "d0_answer =
     \<lparr>resp_generic_code = ''D0'', resp_location = ''CA'',
      resp_ntee_codes = [''D20'', ''D40'', ''D60'', ''D61''],
      resp_charities =
        [tree_friends\<lparr>websiteUrl := Some ''https://treefriends.example.org'',
                      nteeCode := Some ''C30''\<rparr>, river_watch]\<rparr>"

theorem recommend_category_codes_witness:
  "recommend_charities relabelling startup d0_request =
     (Inr d0_answer, snd (recommend_charities relabelling startup d0_request)) \<and>
   river_watch \<in> set (resp_charities d0_answer) \<and>
   map_of GENERIC_TO_NTEE (upper (strip (req_generic_code d0_request)))
     = Some (resp_ntee_codes d0_answer) \<and>
   ((\<exists>code \<in> set (resp_ntee_codes d0_answer). nteeCode river_watch = Some code) \<or>
    (\<exists>d. every_cache (snd (recommend_charities relabelling startup d0_request))
            (py_str (ein river_watch)) = Some (Some d) \<and>
         truthy (detail_get d ''nteeCode'') \<and> nteeCode river_watch = detail_get d ''nteeCode''))"
proof -
  have run: "recommend_charities relabelling startup d0_request =
     (Inr d0_answer, snd (recommend_charities relabelling startup d0_request))"
    using d0_response by (simp add: prod_eq_iff d0_answer_def)
  have mem: "river_watch \<in> set (resp_charities d0_answer)"
    by (simp add: d0_answer_def)
  note concl = recommend_category_codes [OF run mem]
  show ?thesis
    by (rule conjI [OF run conjI [OF mem concl]])
qed



section \<open>The featured list within one day\<close>

definition featured_codes :: "string list" where
  "featured_codes =
     [''D20'', ''D40'', ''D60'', ''D61'', ''B20'', ''B21'', ''B24'', ''B25'', ''B28'',
      ''E20'', ''E21'', ''E22'', ''E24'',
      ''P30'', ''P31'', ''P32'', ''P33'', ''P40'', ''P42'', ''P43'', ''P44'', ''P45'', ''P46'',
      ''C20'', ''C27'', ''C35'', ''N20'', ''N30'', ''N31'', ''N32'']"

lemma featured_deciles:
  "fromkeys (concat (map table_get [''D0'', ''B0'', ''E0'', ''P0'', ''C0'', ''N0''])) = featured_codes"
  by code_simp

lemma featured_codes_clean: "normalize_deciles featured_codes = featured_codes"
  by code_simp

definition trees_row :: CharityRow where
  "trees_row = catalog_row ''111111111'' ''Tree Friends'' ''Fresno'' ''CA'' ''D20''"

definition books_row :: CharityRow where
  "books_row = catalog_row ''222222222'' ''Book Bus'' ''Boise'' ''ID'' ''B20''"

definition website_of :: "string \<Rightarrow> detail" where
  "website_of k =
     [(''websiteUrl'', Some (if k = ''111111111'' then ''https://trees.example.org''
                             else ''https://books.example.org''))]"

definition reordering :: "(int \<Rightarrow> nat \<Rightarrow> nat \<Rightarrow> nat) \<Rightarrow> env" where
  "reordering draw =
     \<lparr>db_exists = True,
      table = [trees_row, books_row],
      db_random = (\<lambda>q k n. if q = 0 then n - 1 else 0),
      api_key_env = Some ''key'',
      every_org = (\<lambda>k ein. Response 200 (Json (PayloadDict (DataDict (NonprofitDict (website_of ein)))))),
      randbelow = draw\<rparr>"

definition trees :: charity where
  "trees =
     \<lparr>name = Some ''Tree Friends'', ein = Some ''111111111'', profileUrl = None,
      websiteUrl = Some ''https://trees.example.org'', nteeCode = Some ''D20'',
      location = Some ''Fresno, CA'', description = None\<rparr>"

definition books :: charity where
  "books =
     \<lparr>name = Some ''Book Bus'', ein = Some ''222222222'', profileUrl = None,
      websiteUrl = Some ''https://books.example.org'', nteeCode = Some ''B20'',
      location = Some ''Boise, ID'', description = None\<rparr>"

definition featured_query :: query where
  "featured_query = \<lparr>q_deciles = featured_codes, q_state = None, q_limit = 600\<rparr>"

lemma featured_matches: "filter (matches featured_query) (table (reordering draw)) = [trees_row, books_row]"
  by (simp add: matches_def featured_query_def featured_codes_def reordering_def trees_row_def
      books_row_def catalog_row_def)

lemma featured_rows:
  "select_rows (reordering draw) w featured_query =
     (if queries w = [] then [trees_row, books_row] else [books_row, trees_row])"
proof -
  have order: "order_by_random (reordering draw) k [trees_row, books_row] =
      (if k = 0 then [trees_row, books_row] else [books_row, trees_row])" for k
    by (simp add: order_by_random_def reordering_def Let_def)
  show ?thesis
    by (simp add: select_rows_def featured_matches order sql_limit_def)
      (simp add: featured_query_def)
qed

definition trees0 :: charity where
  "trees0 = trees\<lparr>websiteUrl := None\<rparr>"

definition books0 :: charity where
  "books0 = books\<lparr>websiteUrl := None\<rparr>"

lemma featured_normalized:
  "normalize_rows [trees_row, books_row] = [trees0, books0]"
  "normalize_rows [books_row, trees_row] = [books0, trees0]"
  by (simp_all add: trees_row_def books_row_def catalog_row_def truthy_def py_str_def
      normalized_def location_str_def Let_def trees0_def books0_def trees_def books_def)

lemma featured_pool:
  "get_daily_featured_pool (reordering draw) w 200 =
     (Inr (if queries w = [] then [trees0, books0] else [books0, trees0]),
      w\<lparr>connection := True, queries := queries w @ [featured_query]\<rparr>)"
proof -
  have db: "connection w \<or> db_exists (reordering draw)"
    by (simp add: reordering_def)
  have q: "\<lparr>q_deciles = featured_codes, q_state = None, q_limit = 600\<rparr> = featured_query"
    by (simp add: featured_query_def)
  have nonempty: "featured_codes \<noteq> []"
    by (simp add: featured_codes_def)
  have fetched: "fetch_by_deciles (reordering draw) w featured_codes None 600 =
     (Inr (select_rows (reordering draw) w featured_query),
      w\<lparr>connection := True, queries := queries w @ [featured_query]\<rparr>)"
    using nonempty
    by (simp add: fetch_by_deciles_def Let_def featured_codes_clean catalog_normalize_state_def
        execute_query_ok [OF db] q rows_to_charities_id)
  have pool: "fetch_random_pool_for_deciles (reordering draw) w featured_codes None 200 None =
     (Inr (select_rows (reordering draw) w featured_query),
      w\<lparr>connection := True, queries := queries w @ [featured_query]\<rparr>)"
    by (simp add: fetch_random_pool_for_deciles_def Let_def fetched featured_rows)
  show ?thesis
    unfolding get_daily_featured_pool_def Let_def featured_deciles pool
    using nonempty by (simp add: featured_rows featured_normalized del: normalize_rows.simps)
qed


definition both_cached :: "string \<rightharpoonup> detail option" where
  "both_cached =
     [''111111111'' \<mapsto> Some (website_of ''111111111''),
      ''222222222'' \<mapsto> Some (website_of ''222222222'')]"

lemma featured_enrich_fresh:
  assumes "every_cache w = Map.empty"
  shows "enrich_charities_with_every (reordering draw) w [trees0, books0] =
     (Inr [trees, books],
      w\<lparr>requests := requests w @ [''111111111'', ''222222222''], every_cache := both_cached\<rparr>)"
  using assms
  by (simp add: fetch_every_nonprofit_detail_def cache_get_def get_api_key_def truthy_def py_str_def
      reordering_def Let_def trees0_def books0_def trees_def books_def apply_detail_def py_or_def
      detail_get_def website_of_def both_cached_def)

lemma featured_enrich_cached:
  assumes "every_cache w = both_cached"
  shows "enrich_charities_with_every (reordering draw) w [books0, trees0] = (Inr [books, trees], w)"
  using assms
  by (simp add: fetch_every_nonprofit_detail_def cache_get_def truthy_def py_str_def
      Let_def trees0_def books0_def trees_def books_def apply_detail_def py_or_def
      detail_get_def website_of_def both_cached_def)

lemma shuffle_pair:
  "shuffle e seed [x, y] = (if randbelow e seed 0 2 mod 2 = 0 then [y, x] else [x, y])"
proof -
  have parity: "n mod 2 = 0 \<or> n mod 2 = 1" for n :: nat
    by arith
  have unfold: "shuffle e seed [x, y] =
      (let j = randbelow e seed 0 2 mod 2 in [x, y][Suc 0 := [x, y] ! j, j := [x, y] ! Suc 0])"
    by (simp add: shuffle_def Let_def numeral_2_eq_2)
  from parity [of "randbelow e seed 0 2"] show ?thesis
    unfolding unfold Let_def by auto
qed

definition new_year :: date where
  "new_year = \<lparr>year = 2024, month = 1, day = 1\<rparr>"

lemma new_year_seed: "int (year new_year * 10000 + month new_year * 100 + day new_year) = 20240101"
  by (simp add: new_year_def)

lemma with_website: "truthy (websiteUrl trees)" "truthy (websiteUrl books)"
  by (simp_all add: trees_def books_def truthy_def)

lemma featured_first_call:
  "get_featured_charities (reordering draw) startup new_year =
     (Inr \<lparr>feat_date = new_year, feat_count = 2,
           feat_charities = (if draw 20240101 0 2 mod 2 = 0 then [books, trees] else [trees, books])\<rparr>,
      startup\<lparr>connection := True, queries := [featured_query],
               requests := [''111111111'', ''222222222''], every_cache := both_cached\<rparr>)"
proof -
  let ?w0 = "startup\<lparr>connection := True, queries := [featured_query]\<rparr>"
  have pool: "get_daily_featured_pool (reordering draw) startup 200 = (Inr [trees0, books0], ?w0)"
    by (simp add: featured_pool startup_def)
  have "every_cache ?w0 = Map.empty"
    by (simp add: startup_def)
  from featured_enrich_fresh [OF this]
  have enriched: "enrich_charities_with_every (reordering draw) ?w0 [trees0, books0] =
     (Inr [trees, books],
      startup\<lparr>connection := True, queries := [featured_query],
               requests := [''111111111'', ''222222222''], every_cache := both_cached\<rparr>)"
    by (simp add: startup_def)
  have draw: "randbelow (reordering draw) = draw"
    by (simp add: reordering_def)
  show ?thesis
    unfolding get_featured_charities_def Let_def new_year_seed pool
    by (simp add: enriched with_website shuffle_pair draw del: enrich_charities_with_every.simps)
qed

lemma featured_second_call:
  assumes "queries w \<noteq> []" and "every_cache w = both_cached"
  shows "fst (get_featured_charities (reordering draw) w new_year) =
     Inr \<lparr>feat_date = new_year, feat_count = 2,
          feat_charities = (if draw 20240101 0 2 mod 2 = 0 then [trees, books] else [books, trees])\<rparr>"
proof -
  let ?w0 = "w\<lparr>connection := True, queries := queries w @ [featured_query]\<rparr>"
  have pool: "get_daily_featured_pool (reordering draw) w 200 = (Inr [books0, trees0], ?w0)"
    using assms(1) by (simp add: featured_pool)
  have "every_cache ?w0 = both_cached"
    using assms(2) by simp
  from featured_enrich_cached [OF this]
  have enriched: "enrich_charities_with_every (reordering draw) ?w0 [books0, trees0] =
     (Inr [books, trees], ?w0)" .
  have draw: "randbelow (reordering draw) = draw"
    by (simp add: reordering_def)
  show ?thesis
    unfolding get_featured_charities_def Let_def new_year_seed pool
    by (simp add: enriched with_website shuffle_pair draw del: enrich_charities_with_every.simps)
qed

text \<open>
  Claim C3. Two calls of the featured operation on the same calendar date are meant to
  return the same list: the seed of the final shuffle is derived from the date. The pool
  that is shuffled is fetched with \<^verbatim>\<open>seed=None\<close> from a query ordered by
  \<^verbatim>\<open>RANDOM()\<close>, so its order changes from call to call. With two catalog rows that
  both get a website, the store returning them in one order at the first call and in the
  other order at the second, the two answers of the same day list the two charities in
  opposite orders, whatever numbers the seeded generator draws.
\<close>

theorem featured_changes_within_a_day:
  "(let first_call = get_featured_charities (reordering draw) startup new_year;
        second_call = get_featured_charities (reordering draw) (snd first_call) new_year
    in (fst first_call = Inr \<lparr>feat_date = new_year, feat_count = 2, feat_charities = [trees, books]\<rparr> \<and>
        fst second_call = Inr \<lparr>feat_date = new_year, feat_count = 2, feat_charities = [books, trees]\<rparr>)
       \<or>
       (fst first_call = Inr \<lparr>feat_date = new_year, feat_count = 2, feat_charities = [books, trees]\<rparr> \<and>
        fst second_call = Inr \<lparr>feat_date = new_year, feat_count = 2, feat_charities = [trees, books]\<rparr>))"
proof -
  let ?w1 = "startup\<lparr>connection := True, queries := [featured_query],
               requests := [''111111111'', ''222222222''], every_cache := both_cached\<rparr>"
  have "queries ?w1 \<noteq> []" "every_cache ?w1 = both_cached"
    by simp_all
  from featured_second_call [OF this] show ?thesis
    by (simp add: Let_def featured_first_call)
qed

end
